theory Spec2Isabelle
  imports Complex_Main "HOL-Library.Multiset"
begin

section \<open>JavaScript numbers and strings\<close>

text \<open>
  The pipeline computes with JavaScript numbers. They are modelled as real numbers,
  without the rounding of IEEE doubles, except for the mean of the scores, whose
  rounding is also written out (\<open>aggregate_double\<close>) because the order of the additions
  can decide the verdict. The places where the code can produce \<open>NaN\<close> or an infinity
  (a duration that is not a number, the division by the sampling interval) are written
  out below.
\<close>

text \<open>\<open>String(n)\<close> for a whole number \<open>0 \<le> n < 10^21\<close>: its decimal digits.\<close>

fun decimal :: "nat \<Rightarrow> string" where
  "decimal n =
     (if n < 10 then [''0123456789'' ! n]
      else decimal (n div 10) @ [''0123456789'' ! (n mod 10)])"

declare decimal.simps [simp del]

text \<open>
  \<open>String(x)\<close> for any number. Whole numbers below \<open>10^21\<close> print as decimal digits;
  what JavaScript prints for the others (fractions, negative numbers, exponent notation)
  is the parameter \<open>other\<close>.
\<close>

definition String_num :: "(real \<Rightarrow> string) \<Rightarrow> real \<Rightarrow> string" where
  "String_num other x =
     (if x = real_of_int \<lfloor>x\<rfloor> \<and> 0 \<le> x \<and> x < 10 ^ 21 then decimal (nat \<lfloor>x\<rfloor>)
      else other x)"

definition padStart :: "nat \<Rightarrow> char \<Rightarrow> string \<Rightarrow> string" where
  "padStart n c s = replicate (n - length s) c @ s"

definition endsWith :: "string \<Rightarrow> string \<Rightarrow> bool" where
  "endsWith s suf = (length suf \<le> length s \<and> drop (length s - length suf) s = suf)"

text \<open>The remainder operator \<open>x % y\<close>: the quotient is truncated towards zero.\<close>

definition js_rem :: "real \<Rightarrow> real \<Rightarrow> real" where
  "js_rem x y =
     x - y * real_of_int (let q = x / y in if 0 \<le> q then \<lfloor>q\<rfloor> else \<lceil>q\<rceil>)"

text \<open>A number that may be \<open>NaN\<close>, where the code can produce one.\<close>

datatype 'a or_nan = NaN | Num 'a

subsection \<open>The rounding of doubles\<close>

text \<open>
  Where the order of the additions decides a claim, the rounding of IEEE doubles is
  written out. A double is the real number it denotes. \<open>lg2 x\<close> is the binary
  exponent of \<open>x > 0\<close>: \<open>2 ^ lg2 x \<le> x < 2 ^ (lg2 x + 1)\<close>.
\<close>

function lg2 :: "real \<Rightarrow> int" where
  "lg2 x =
     (if 2 \<le> x then lg2 (x / 2) + 1
      else if 0 < x \<and> x < 1 then lg2 (x * 2) - 1
      else 0)"
  by pat_completeness auto
termination
proof (relation "measure (\<lambda>x. if 1 \<le> x then nat \<lfloor>x\<rfloor> else nat \<lceil>2 / x\<rceil>)")
  show "wf (measure (\<lambda>x::real. if 1 \<le> x then nat \<lfloor>x\<rfloor> else nat \<lceil>2 / x\<rceil>))"
    by simp
next
  fix x :: real
  assume x: "2 \<le> x"
  have "\<lfloor>x / 2\<rfloor> \<le> \<lfloor>x - 1\<rfloor>"
    using x by (intro floor_mono) simp
  then have "\<lfloor>x / 2\<rfloor> < \<lfloor>x\<rfloor>"
    by simp
  moreover have "0 < \<lfloor>x\<rfloor>"
    using x by simp
  ultimately have "nat \<lfloor>x / 2\<rfloor> < nat \<lfloor>x\<rfloor>"
    by linarith
  then show "(x / 2, x) \<in> measure (\<lambda>x. if 1 \<le> x then nat \<lfloor>x\<rfloor> else nat \<lceil>2 / x\<rceil>)"
    using x by simp
next
  fix x :: real
  assume a: "\<not> 2 \<le> x" and b: "0 < x \<and> x < 1"
  show "(x * 2, x) \<in> measure (\<lambda>x. if 1 \<le> x then nat \<lfloor>x\<rfloor> else nat \<lceil>2 / x\<rceil>)"
  proof (cases "1 \<le> x * 2")
    case True
    have "\<lfloor>x * 2\<rfloor> \<le> 1"
      using b by (simp add: floor_le_iff)
    moreover have "2 < 2 / x"
      using b by (simp add: field_simps)
    then have "2 < \<lceil>2 / x\<rceil>"
      by (simp add: less_ceiling_iff)
    ultimately have "nat \<lfloor>x * 2\<rfloor> < nat \<lceil>2 / x\<rceil>"
      by linarith
    moreover have "\<not> 1 \<le> x"
      using b by simp
    ultimately show ?thesis
      using True by (simp del: floor_less_cancel)
  next
    case False
    then have "2 < 1 / x"
      using b by (simp add: field_simps)
    then have "1 / x + 1 < 2 / x"
      by (simp add: field_simps)
    moreover have "real_of_int \<lceil>1 / x\<rceil> < 1 / x + 1"
      by linarith
    moreover have "2 / x \<le> real_of_int \<lceil>2 / x\<rceil>"
      by linarith
    ultimately have "\<lceil>1 / x\<rceil> < \<lceil>2 / x\<rceil>"
      by linarith
    moreover have "0 < \<lceil>2 / x\<rceil>"
      using b by (simp add: field_simps)
    ultimately have "nat \<lceil>2 / (x * 2)\<rceil> < nat \<lceil>2 / x\<rceil>"
      by simp
    moreover have "\<not> 1 \<le> x"
      using b by simp
    ultimately show ?thesis
      using False by simp
  qed
qed

declare lg2.simps [simp del]

text \<open>
  The double nearest to a real number, ties to the even mantissa: 53 bits of mantissa,
  and the fixed spacing \<open>2 ^ -1074\<close> of the subnormal range. Overflow to an infinity is
  not modelled: the numbers rounded here are sums and means of scores in \<open>[0, 1]\<close>.
\<close>

definition fl :: "real \<Rightarrow> real" where
  "fl x =
     (if x = 0 then 0
      else
        (let e = max (lg2 \<bar>x\<bar> - 52) (- 1074);
             q = (if 0 \<le> e then 2 ^ nat e else 1 / 2 ^ nat (- e));
             t = x / q;
             n = \<lfloor>t\<rfloor>;
             r = t - real_of_int n;
             m = (if r < 1 / 2 then n else if 1 / 2 < r then n + 1
                  else if even n then n else n + 1)
         in real_of_int m * q))"

section \<open>Data model\<close>

datatype video_status = Uploaded | Processing | Processed | Failed

datatype safety_status = Unknown | Safe | Flagged

datatype job_status = JQueued | JProcessing | JCompleted | JFailed

text \<open>
  The value of \<open>metadata.format?.duration\<close> that \<open>ffprobe\<close> hands over. fluent-ffmpeg
  turns the numeric values of the probe output into numbers and leaves the others as
  strings, so an unknown duration arrives as the string \<open>N/A\<close>: \<open>DurationText s\<close> is
  such a string \<open>s\<close>, one that is not the text of a number.
\<close>

datatype duration_field = DurationUndefined | DurationNumber real | DurationText string

text \<open>
  The number that \<open>metadata.format?.duration || 0\<close> is in the arithmetic that follows:
  \<open>undefined\<close>, 0 and the empty string give 0, any other string that is not a number
  gives \<open>NaN\<close>.
\<close>

definition duration_or_zero :: "duration_field \<Rightarrow> real or_nan" where
  "duration_or_zero d =
     (case d of
        DurationUndefined \<Rightarrow> Num 0
      | DurationNumber x \<Rightarrow> Num x
      | DurationText s \<Rightarrow> if s = [] then Num 0 else NaN)"

text \<open>The fields of the video document that the pipeline reads or writes.\<close>

record video =
  v_tenantId :: string
  v_storagePath :: string
  v_status :: video_status
  v_safetyStatus :: safety_status
  v_duration :: "int or_nan option"

text \<open>\<open>ProcessingJob\<close> of the processing service.\<close>

record job =
  j_videoId :: string
  j_tenantId :: string
  j_status :: job_status
  j_progress :: nat
  j_safetyStatus :: "safety_status option"

text \<open>One channel of the image statistics: the two fields the scorer reads.\<close>

record channel_stats =
  ch_mean :: real
  ch_stdev :: real

text \<open>The events sent to the tenant's room, with the payload fields that vary.\<close>

datatype event =
  ProcessingStart string nat
  | ProcessingProgress string nat string
  | ProcessingCompleted string nat safety_status "int or_nan"
  | ProcessingFailed string string

section \<open>The environment of one run\<close>

text \<open>
  Every place where the run calls the file system, ffmpeg, the image library or the
  database, and may get an error back. One run reaches each place at most once (once
  per file for the per-file ones), so a failure pattern is a function of the place.
\<close>

datatype site =
  MkdirTemp
  | Screenshots
  | ReaddirFrames
  | StatFrame string
  | SharpStats string
  | UnlinkFrame string
  | RmdirTemp
  | ReaddirCleanup
  | UnlinkCleanup string
  | RmdirCleanup
  | FindVideo
  | SetProcessing
  | SetDuration
  | SetProcessed
  | SetFailed

text \<open>
  What the outside world answers during one run on one video file:
  \<^item> \<open>probe_meta\<close>, \<open>probe_extract\<close>: the two \<open>ffprobe\<close> calls (\<open>getVideoMetadata\<close>,
    \<open>extractFrames\<close>): \<open>Inl\<close> the error message, \<open>Inr\<close> the value of
    \<open>metadata.format?.duration\<close>;
  \<^item> \<open>shots\<close>: the file names ffmpeg writes into the folder for the timestamps it is
    given;
  \<^item> \<open>fails\<close>: the error message with which the call at a place fails (\<open>None\<close>: it
    succeeds);
  \<^item> \<open>file_size\<close>, \<open>img_channels\<close>: \<open>stat(f).size\<close> and \<open>sharp(f).stats().channels\<close>;
  \<^item> \<open>math_random\<close>: the value of the \<open>n\<close>-th call of \<open>Math.random()\<close>;
  \<^item> \<open>num_str\<close>: \<open>String(x)\<close> for the numbers that do not print as plain digits.
\<close>

record env =
  probe_meta :: "string + duration_field"
  probe_extract :: "string + duration_field"
  shots :: "string list \<Rightarrow> string list"
  fails :: "site \<Rightarrow> string option"
  file_size :: "string \<Rightarrow> nat"
  img_channels :: "string \<Rightarrow> channel_stats list"
  math_random :: "nat \<Rightarrow> real"
  num_str :: "real \<Rightarrow> string"

text \<open>
  The state the analysis mutates: the run's temporary frame directory (\<open>None\<close>: it does
  not exist; \<open>Some fs\<close>: it exists and holds the files named \<open>fs\<close>) and the number of
  \<open>Math.random()\<close> calls made so far. The directory's name (built from \<open>Date.now()\<close>
  and one random draw) is not modelled: frame paths are file names inside it.
\<close>

record fs_state =
  tmp :: "string list option"
  draws :: nat

text \<open>
  The state of the processing service: the file system part, the video collection keyed
  by \<open>_id\<close>, the in-memory \<open>processingQueue\<close>, and the events emitted so far with
  their room. \<open>job_history\<close> is a history variable, not a field of the code: every value
  assigned to the run's \<open>job.progress\<close>, in order.
\<close>

record world =
  filesys :: fs_state
  videos :: "string \<rightharpoonup> video"
  processingQueue :: "string \<rightharpoonup> job"
  job_history :: "nat list"
  events :: "(string \<times> event) list"

section \<open>extractFrames\<close>

text \<open>
  \<open>Math.max(1, Math.min(CAP, Math.floor(duration / interval)))\<close>, with \<open>CAP\<close> 30 in
  \<open>sensitivityAnalysis.ts\<close> and 10 in the older copy. The result is \<open>NaN\<close> when the
  duration is, and for \<open>0 / 0\<close>: \<open>floor\<close>, \<open>min\<close> and \<open>max\<close> hand \<open>NaN\<close> on. A non-zero
  duration over a zero interval is an infinity, which \<open>min\<close> or \<open>max\<close> cuts off.
\<close>

definition numFrames :: "int \<Rightarrow> real or_nan \<Rightarrow> real \<Rightarrow> int or_nan" where
  "numFrames cap duration interval =
     (case duration of
        NaN \<Rightarrow> NaN
      | Num d \<Rightarrow>
          if interval = 0 then
            (if d = 0 then NaN
             else if 0 < d then Num (max 1 cap)
             else Num 1)
          else Num (max 1 (min cap \<lfloor>d / interval\<rfloor>)))"

text \<open>
  The loop body, from \<open>seconds = i * interval\<close>: the three numbers \<open>hours\<close>, \<open>mins\<close>
  and \<open>secs\<close>, then the \<open>HH:MM:SS\<close> string built from them.
\<close>

definition timestamp_parts :: "real \<Rightarrow> real \<times> real \<times> real" where
  "timestamp_parts seconds =
     (let hours = real_of_int \<lfloor>seconds / 3600\<rfloor>;
          mins = real_of_int \<lfloor>js_rem seconds 3600 / 60\<rfloor>;
          secs = js_rem seconds 60
      in (hours, mins, secs))"

definition timestamp :: "(real \<Rightarrow> string) \<Rightarrow> real \<Rightarrow> string" where
  "timestamp other seconds =
     (case timestamp_parts seconds of
        (hours, mins, secs) \<Rightarrow>
          padStart 2 CHR ''0'' (String_num other hours) @ '':'' @
          padStart 2 CHR ''0'' (String_num other mins) @ '':'' @
          padStart 2 CHR ''0'' (String_num other secs))"

text \<open>
  The timestamps handed to ffmpeg: \<open>duration = metadata.format?.duration || 0\<close>, the
  loop \<open>for (i = 0; i < numFrames; i++)\<close> (no iteration when \<open>numFrames\<close> is \<open>NaN\<close>),
  and the fallback \<open>"00:00:01"\<close> when the loop pushed nothing.
\<close>

definition genTimestamps :: "(real \<Rightarrow> string) \<Rightarrow> int \<Rightarrow> duration_field \<Rightarrow> real \<Rightarrow> string list" where
  "genTimestamps other cap format_duration interval =
     (let duration = duration_or_zero format_duration;
          timestamps =
            (case numFrames cap duration interval of
               NaN \<Rightarrow> []
             | Num n \<Rightarrow> map (\<lambda>i. timestamp other (real i * interval)) [0..<nat n])
      in if length timestamps = 0 then [''00:00:01''] else timestamps)"

text \<open>Files written into a directory: a name already there is overwritten.\<close>

definition write_files :: "string list \<Rightarrow> string list \<Rightarrow> string list" where
  "write_files new old = old @ filter (\<lambda>f. f \<notin> set old) (remdups new)"

text \<open>
  \<open>extractFrames(videoPath, outputDir, interval)\<close>: \<open>Inl\<close> is the message of the error
  the promise rejects with, \<open>Inr\<close> the \<open>.jpg\<close> files of the directory. An exception of
  \<open>mkdirSync\<close> inside the promise executor rejects the promise.
\<close>

definition extractFrames :: "int \<Rightarrow> env \<Rightarrow> real \<Rightarrow> fs_state \<Rightarrow> (string + string list) \<times> fs_state" where
  "extractFrames cap e interval s =
     (case (if tmp s = None then fails e MkdirTemp else None) of
        Some m \<Rightarrow> (Inl m, s)
      | None \<Rightarrow>
         (let s1 = (if tmp s = None then s\<lparr>tmp := Some []\<rparr> else s) in
          case probe_extract e of
            Inl m \<Rightarrow> (Inl (''Failed to probe video: '' @ m), s1)
          | Inr format_duration \<Rightarrow>
             (let timestamps = genTimestamps (num_str e) cap format_duration interval;
                  files = write_files (shots e timestamps) (case tmp s1 of None \<Rightarrow> [] | Some fs \<Rightarrow> fs);
                  s2 = s1\<lparr>tmp := Some files\<rparr>
              in case fails e Screenshots of
                   Some m \<Rightarrow> (Inl (''Frame extraction failed: '' @ m), s2)
                 | None \<Rightarrow>
                    (case fails e ReaddirFrames of
                       Some m \<Rightarrow> (Inl (''Failed to read extracted frames: '' @ m), s2)
                     | None \<Rightarrow> (Inr (filter (\<lambda>f. endsWith f ''.jpg'') files), s2)))))"

section \<open>analyzeFrame\<close>

text \<open>
  The arithmetic of the pixel-statistics scorer (\<open>sensitivityAnalysis.ts\<close>), from the
  file size and the statistics of the first three channels to the clamped score.
\<close>

definition frame_score :: "nat \<Rightarrow> channel_stats \<Rightarrow> channel_stats \<Rightarrow> channel_stats \<Rightarrow> real" where
  "frame_score fileSize r g b =
     (let rMean = ch_mean r / 255; gMean = ch_mean g / 255; bMean = ch_mean b / 255;
          rStd = ch_stdev r / 255; gStd = ch_stdev g / 255; bStd = ch_stdev b / 255;
          brightness = (rMean + gMean + bMean) / 3;
          contrast = (rStd + gStd + bStd) / 3;
          colorVariance =
            ((rMean - gMean)\<^sup>2 + (rMean - bMean)\<^sup>2 + (gMean - bMean)\<^sup>2) / 3;
          brightnessRisk = 1 - \<bar>brightness - 0.5\<bar> * 2;
          contrastRisk = min 1 (contrast * 2);
          colorRisk = min 1 (sqrt colorVariance * 2);
          sizeRisk =
            (if fileSize < 5000 then 0.1
             else if fileSize < 50000 then 0.3
             else if fileSize < 200000 then 0.6
             else 0.8);
          score = brightnessRisk * 0.3 + contrastRisk * 0.3 + colorRisk * 0.2 + sizeRisk * 0.2
      in max 0 (min 1 score))"

text \<open>
  The body of its \<open>try\<close> block: \<open>Inl\<close> when \<open>stat\<close> or \<open>sharp\<close> throws, or when the
  image has fewer than three channels (reading \<open>.mean\<close> of \<open>undefined\<close> throws).
\<close>

definition analyzeFrame_try :: "env \<Rightarrow> string \<Rightarrow> string + real" where
  "analyzeFrame_try e framePath =
     (case fails e (StatFrame framePath) of
        Some m \<Rightarrow> Inl m
      | None \<Rightarrow>
         (let fileSize = file_size e framePath in
          case fails e (SharpStats framePath) of
            Some m \<Rightarrow> Inl m
          | None \<Rightarrow>
             (case img_channels e framePath of
                r # g # b # _ \<Rightarrow> Inr (frame_score fileSize r g b)
              | _ \<Rightarrow> Inl ''TypeError'')))"

text \<open>The \<open>catch\<close> block returns 0.\<close>

definition analyzeFrame :: "env \<Rightarrow> string \<Rightarrow> real" where
  "analyzeFrame e framePath =
     (case analyzeFrame_try e framePath of Inl m \<Rightarrow> 0 | Inr score \<Rightarrow> score)"

text \<open>
  The file-size-only scorer of the older copy. Its \<open>try\<close> block draws one random number,
  after \<open>stat\<close> has succeeded; the second component is the number of draws made so far.
\<close>

definition analyzeFrame_sizeonly_try :: "env \<Rightarrow> nat \<Rightarrow> string \<Rightarrow> (string + real) \<times> nat" where
  "analyzeFrame_sizeonly_try e n framePath =
     (case fails e (StatFrame framePath) of
        Some m \<Rightarrow> (Inl m, n)
      | None \<Rightarrow>
         (let fileSize = file_size e framePath;
              baseScore = (if fileSize < 1000 then 0.1 else 0.05);
              randomVariation = math_random e n * 0.2
          in (Inr (min 1 (baseScore + randomVariation)), Suc n)))"

definition analyzeFrame_sizeonly :: "env \<Rightarrow> nat \<Rightarrow> string \<Rightarrow> real \<times> nat" where
  "analyzeFrame_sizeonly e n framePath =
     (case analyzeFrame_sizeonly_try e n framePath of
        (Inl m, n') \<Rightarrow> (0, n')
      | (Inr score, n') \<Rightarrow> (score, n'))"

section \<open>analyzeVideoSensitivity\<close>

text \<open>
  The two copies of the analysis differ in the frame cap, the scorer and the two
  thresholds; everything else is the same code. A scorer takes and returns the number
  of random draws made.
\<close>

record variant =
  frame_cap :: int
  scorer :: "env \<Rightarrow> nat \<Rightarrow> string \<Rightarrow> real \<times> nat"
  max_threshold :: real
  mean_threshold :: real

text \<open>\<open>src/services/sensitivityAnalysis.ts\<close>: cap 30, pixel statistics, 0.4 and 0.4.\<close>

definition pixel_variant :: variant where
  "pixel_variant =
     \<lparr>frame_cap = 30, scorer = (\<lambda>e n f. (analyzeFrame e f, n)),
      max_threshold = 0.4, mean_threshold = 0.4\<rparr>"

text \<open>The older copy: cap 10, file size and a random draw, 0.7 and 0.5.\<close>

definition sizeonly_variant :: variant where
  "sizeonly_variant =
     \<lparr>frame_cap = 10, scorer = analyzeFrame_sizeonly,
      max_threshold = 0.7, mean_threshold = 0.5\<rparr>"

text \<open>\<open>Math.max(...xs)\<close>; \<open>None\<close> is \<open>-Infinity\<close>, the value for no argument.\<close>

fun Math_max :: "'a::linorder list \<Rightarrow> 'a option" where
  "Math_max [] = None"
| "Math_max (x # xs) = Some (foldl max x xs)"

text \<open>
  The verdict computed from the scores: the test for no frames, \<open>maxScore\<close>,
  \<open>avgScore\<close> with \<open>reduce((a, b) => a + b, 0)\<close>, \<open>shouldFlag\<close>, and the returned value.
  One score is pushed per frame path, so the test \<open>framePaths.length === 0\<close> is the
  test on the number of scores.
\<close>

definition aggregate :: "real \<Rightarrow> real \<Rightarrow> real list \<Rightarrow> safety_status" where
  "aggregate maxT meanT analysisScores =
     (if length analysisScores = 0 then Safe
      else
        (let maxScore = Math_max analysisScores;
             avgScore = foldl (+) 0 analysisScores / real (length analysisScores);
             shouldFlag = ((case maxScore of None \<Rightarrow> False | Some m \<Rightarrow> m > maxT) \<or> avgScore > meanT)
         in if shouldFlag then Flagged else Safe))"

text \<open>
  The same lines with the rounding of the mean written out: every addition of the
  \<open>reduce\<close> and the division are rounded by \<open>rnd\<close>. \<open>Math.max\<close> and the comparisons
  are exact. With \<open>rnd = fl\<close> this is the arithmetic of the doubles; with the identity
  it is \<open>aggregate\<close>.
\<close>

definition avgScore_rounded :: "(real \<Rightarrow> real) \<Rightarrow> real list \<Rightarrow> real" where
  "avgScore_rounded rnd analysisScores =
     rnd (foldl (\<lambda>a b. rnd (a + b)) 0 analysisScores / real (length analysisScores))"

definition aggregate_rounded :: "(real \<Rightarrow> real) \<Rightarrow> real \<Rightarrow> real \<Rightarrow> real list \<Rightarrow> safety_status" where
  "aggregate_rounded rnd maxT meanT analysisScores =
     (if length analysisScores = 0 then Safe
      else
        (let maxScore = Math_max analysisScores;
             avgScore = avgScore_rounded rnd analysisScores;
             shouldFlag = ((case maxScore of None \<Rightarrow> False | Some m \<Rightarrow> m > maxT) \<or> avgScore > meanT)
         in if shouldFlag then Flagged else Safe))"

definition aggregate_double :: "real \<Rightarrow> real \<Rightarrow> real list \<Rightarrow> safety_status" where
  "aggregate_double = aggregate_rounded fl"

text \<open>The scoring loop: one score per frame path, in order.\<close>

fun score_all :: "(nat \<Rightarrow> string \<Rightarrow> real \<times> nat) \<Rightarrow> nat \<Rightarrow> string list \<Rightarrow> real list \<times> nat" where
  "score_all sc n [] = ([], n)"
| "score_all sc n (f # fs) =
     (case sc n f of (score, n') \<Rightarrow>
        (case score_all sc n' fs of (scores, n'') \<Rightarrow> (score # scores, n'')))"

text \<open>
  \<open>unlink(f)\<close> and \<open>rmdirSync(tempDir)\<close> on the temporary directory: the error message,
  or \<open>None\<close> and the new state. Apart from the failures of the environment, \<open>unlink\<close>
  fails on a missing file and \<open>rmdirSync\<close> on a missing or non-empty directory.
\<close>

definition unlink :: "env \<Rightarrow> site \<Rightarrow> string \<Rightarrow> fs_state \<Rightarrow> string option \<times> fs_state" where
  "unlink e st f s =
     (case fails e st of
        Some m \<Rightarrow> (Some m, s)
      | None \<Rightarrow>
         (case tmp s of
            None \<Rightarrow> (Some ''ENOENT'', s)
          | Some fs \<Rightarrow>
              if f \<in> set fs then (None, s\<lparr>tmp := Some (remove1 f fs)\<rparr>)
              else (Some ''ENOENT'', s)))"

definition rmdirSync :: "env \<Rightarrow> site \<Rightarrow> fs_state \<Rightarrow> string option \<times> fs_state" where
  "rmdirSync e st s =
     (case fails e st of
        Some m \<Rightarrow> (Some m, s)
      | None \<Rightarrow>
         (case tmp s of
            None \<Rightarrow> (Some ''ENOENT'', s)
          | Some [] \<Rightarrow> (None, s\<lparr>tmp := None\<rparr>)
          | Some (f # fs) \<Rightarrow> (Some ''ENOTEMPTY'', s)))"

text \<open>The clean-up of the success path: each \<open>unlink\<close> in its own \<open>try\<close>.\<close>

fun unlink_frames :: "env \<Rightarrow> string list \<Rightarrow> fs_state \<Rightarrow> fs_state" where
  "unlink_frames e [] s = s"
| "unlink_frames e (f # fs) s = unlink_frames e fs (snd (unlink e (UnlinkFrame f) f s))"

text \<open>The loop of the \<open>catch\<close> block: the first \<open>unlink\<close> that throws ends it.\<close>

fun unlink_all :: "env \<Rightarrow> string list \<Rightarrow> fs_state \<Rightarrow> string option \<times> fs_state" where
  "unlink_all e [] s = (None, s)"
| "unlink_all e (f # fs) s =
     (case unlink e (UnlinkCleanup f) f s of
        (Some m, s') \<Rightarrow> (Some m, s')
      | (None, s') \<Rightarrow> unlink_all e fs s')"

text \<open>The \<open>catch\<close> block's clean-up, inside its own \<open>try\<close> whose errors are dropped.\<close>

definition cleanup_on_error :: "env \<Rightarrow> fs_state \<Rightarrow> fs_state" where
  "cleanup_on_error e s =
     (case tmp s of
        None \<Rightarrow> s
      | Some fs \<Rightarrow>
         (case fails e ReaddirCleanup of
            Some m \<Rightarrow> s
          | None \<Rightarrow>
             (case unlink_all e fs s of
                (Some m, s') \<Rightarrow> s'
              | (None, s') \<Rightarrow> snd (rmdirSync e RmdirCleanup s'))))"

text \<open>
  \<open>analyzeVideoSensitivity(videoPath)\<close>. Naming the temporary directory takes one random
  draw; the interval passed to \<open>extractFrames\<close> is 5.
\<close>

definition analyzeVideoSensitivity :: "variant \<Rightarrow> env \<Rightarrow> fs_state \<Rightarrow> safety_status \<times> fs_state" where
  "analyzeVideoSensitivity v e s =
     (let s0 = s\<lparr>draws := Suc (draws s)\<rparr> in
      case extractFrames (frame_cap v) e 5 s0 of
        (Inl error, s1) \<Rightarrow> (Safe, cleanup_on_error e s1)
      | (Inr framePaths, s1) \<Rightarrow>
          if length framePaths = 0 then (Safe, s1)
          else
            (case score_all (scorer v e) (draws s1) framePaths of
               (analysisScores, n) \<Rightarrow>
                 (let verdict = aggregate (max_threshold v) (mean_threshold v) analysisScores;
                      s2 = unlink_frames e framePaths (s1\<lparr>draws := n\<rparr>);
                      s3 = snd (rmdirSync e RmdirTemp s2)
                  in (verdict, s3))))"

section \<open>The processing service\<close>

text \<open>
  \<open>getVideoMetadata\<close>: a failed probe resolves with duration 0, otherwise with
  \<open>Math.round(metadata.format?.duration || 0)\<close>, which is \<open>NaN\<close> for a duration that
  is not a number. Whether the database then accepts the update of the duration is
  the environment's answer at \<open>SetDuration\<close>.
\<close>

definition getVideoMetadata :: "env \<Rightarrow> int or_nan" where
  "getVideoMetadata e =
     (case probe_meta e of
        Inl m \<Rightarrow> Num 0
      | Inr format_duration \<Rightarrow>
          (case duration_or_zero format_duration of
             NaN \<Rightarrow> NaN
           | Num d \<Rightarrow> Num (round d)))"

text \<open>
  \<open>Video.findOne({_id: videoId, tenantId})\<close>: the document with this \<open>_id\<close>, when it
  belongs to the tenant.
\<close>

definition findOne :: "world \<Rightarrow> string \<Rightarrow> string \<Rightarrow> video option" where
  "findOne w videoId tenantId =
     (case videos w videoId of
        None \<Rightarrow> None
      | Some v \<Rightarrow> if v_tenantId v = tenantId then Some v else None)"

text \<open>
  \<open>updateVideoStatus(videoId, tenantId, updates, undefined, undefined)\<close>:
  \<open>findOneAndUpdate\<close> with the same query; it throws when the database call fails and
  changes nothing when no document matches.
\<close>

definition updateVideoStatus ::
    "env \<Rightarrow> site \<Rightarrow> string \<Rightarrow> string \<Rightarrow> (video \<Rightarrow> video) \<Rightarrow> world \<Rightarrow> string option \<times> world" where
  "updateVideoStatus e st videoId tenantId updates w =
     (case fails e st of
        Some m \<Rightarrow> (Some m, w)
      | None \<Rightarrow>
         (case findOne w videoId tenantId of
            None \<Rightarrow> (None, w)
          | Some v \<Rightarrow> (None, w\<lparr>videos := (videos w)(videoId \<mapsto> updates v)\<rparr>)))"

text \<open>\<open>if (io) io.to(`tenant:${tenantId}`).emit(...)\<close>.\<close>

definition emit :: "bool \<Rightarrow> string \<Rightarrow> event \<Rightarrow> world \<Rightarrow> world" where
  "emit io tenantId ev w =
     (if io then w\<lparr>events := events w @ [(''tenant:'' @ tenantId, ev)]\<rparr> else w)"

text \<open>
  An assignment to the fields of the run's \<open>job\<close> object. The queue holds that same
  object under \<open>videoId\<close>, so the entry changes with it; the new progress value is
  appended to the history.
\<close>

definition set_job :: "string \<Rightarrow> job \<Rightarrow> world \<Rightarrow> world" where
  "set_job videoId j w =
     w\<lparr>processingQueue := (processingQueue w)(videoId \<mapsto> j),
       job_history := job_history w @ [j_progress j]\<rparr>"

text \<open>
  The \<open>try\<close> block of \<open>processVideo\<close>: \<open>Some m\<close> is the message of the error thrown,
  with the state reached when it was thrown.
\<close>

definition processVideo_try ::
    "variant \<Rightarrow> env \<Rightarrow> string \<Rightarrow> string \<Rightarrow> bool \<Rightarrow> world \<Rightarrow> string option \<times> world" where
  "processVideo_try v e videoId tenantId io w =
     (case fails e FindVideo of
        Some m \<Rightarrow> (Some m, w)
      | None \<Rightarrow>
     (case findOne w videoId tenantId of
        None \<Rightarrow> (Some ''Video not found'', w)
      | Some vid \<Rightarrow>
     (let job0 = \<lparr>j_videoId = videoId, j_tenantId = tenantId, j_status = JQueued,
                  j_progress = 0, j_safetyStatus = None\<rparr>;
          w1 = set_job videoId job0 w
      in
      case updateVideoStatus e SetProcessing videoId tenantId (\<lambda>x. x\<lparr>v_status := Processing\<rparr>) w1 of
        (Some m, w2) \<Rightarrow> (Some m, w2)
      | (None, w2) \<Rightarrow>
     (let job1 = job0\<lparr>j_status := JProcessing, j_progress := 10\<rparr>;
          w3 = set_job videoId job1 w2;
          w4 = emit io tenantId (ProcessingStart videoId 10) w3;
          duration = getVideoMetadata e;
          job2 = job1\<lparr>j_progress := 30\<rparr>;
          w5 = set_job videoId job2 w4;
          w6 = emit io tenantId (ProcessingProgress videoId 30 ''Extracting video metadata...'') w5
      in
      case updateVideoStatus e SetDuration videoId tenantId (\<lambda>x. x\<lparr>v_duration := Some duration\<rparr>) w6 of
        (Some m, w7) \<Rightarrow> (Some m, w7)
      | (None, w7) \<Rightarrow>
     (let w8 = emit io tenantId (ProcessingProgress videoId 50 ''Analyzing content sensitivity...'') w7
      in
      case analyzeVideoSensitivity v e (filesys w8) of
        (safetyStatus, s) \<Rightarrow>
     (let w9 = w8\<lparr>filesys := s\<rparr>;
          job3 = job2\<lparr>j_progress := 80, j_safetyStatus := Some safetyStatus\<rparr>;
          w10 = set_job videoId job3 w9;
          w11 = emit io tenantId (ProcessingProgress videoId 80 ''Finalizing results...'') w10
      in
      case updateVideoStatus e SetProcessed videoId tenantId
             (\<lambda>x. x\<lparr>v_status := Processed, v_safetyStatus := safetyStatus\<rparr>) w11 of
        (Some m, w12) \<Rightarrow> (Some m, w12)
      | (None, w12) \<Rightarrow>
     (let job4 = job3\<lparr>j_status := JCompleted, j_progress := 100\<rparr>;
          w13 = set_job videoId job4 w12;
          w14 = emit io tenantId (ProcessingCompleted videoId 100 safetyStatus duration) w13
      in (None, w14\<lparr>processingQueue := (processingQueue w14)(videoId := None)\<rparr>))))))))"

text \<open>
  The \<open>catch\<close> block: the update to \<open>failed\<close> has its own \<open>.catch\<close>, the event carries
  \<open>error?.message || "Processing failed"\<close>, and the job is deleted.
\<close>

definition processVideo_catch :: "env \<Rightarrow> string \<Rightarrow> string \<Rightarrow> bool \<Rightarrow> string \<Rightarrow> world \<Rightarrow> world" where
  "processVideo_catch e videoId tenantId io m w =
     (let w1 = snd (updateVideoStatus e SetFailed videoId tenantId (\<lambda>x. x\<lparr>v_status := Failed\<rparr>) w);
          w2 = emit io tenantId
                 (ProcessingFailed videoId (if m = [] then ''Processing failed'' else m)) w1
      in w2\<lparr>processingQueue := (processingQueue w2)(videoId := None)\<rparr>)"

text \<open>
  \<open>processVideo(videoId, tenantId, io)\<close>, with the copy of the analysis it imports as
  first argument; \<open>io\<close> tells whether a socket server was passed. The history starts
  empty with the run. The path \<open>getFilePath(video.storagePath)\<close> is not modelled: the
  environment describes the file it names.
\<close>

definition processVideo :: "variant \<Rightarrow> env \<Rightarrow> string \<Rightarrow> string \<Rightarrow> bool \<Rightarrow> world \<Rightarrow> world" where
  "processVideo v e videoId tenantId io w =
     (case processVideo_try v e videoId tenantId io (w\<lparr>job_history := []\<rparr>) of
        (None, w') \<Rightarrow> w'
      | (Some m, w') \<Rightarrow> processVideo_catch e videoId tenantId io m w')"

text \<open>\<open>getProcessingStatus(videoId)\<close>: \<open>None\<close> is \<open>null\<close>.\<close>

definition getProcessingStatus :: "world \<Rightarrow> string \<Rightarrow> job option" where
  "getProcessingStatus w videoId = processingQueue w videoId"

section \<open>Notions of the specification\<close>

text \<open>
  The specification's \<open>clamp(x, lo, hi)\<close>, written from its words (\<open>x\<close> "clamped to
  the inclusive range \<open>[lo, hi]\<close>"), to be compared with the code's
  \<open>Math.max(1, Math.min(CAP, x))\<close>.
\<close>

definition clamp :: "int \<Rightarrow> int \<Rightarrow> int \<Rightarrow> int" where
  "clamp x lo hi = (if x < lo then lo else if hi < x then hi else x)"

text \<open>
  The second count that an \<open>HH:MM:SS\<close> string stands for, read back from the
  characters and independent of how the code prints: three colon-separated fields of
  decimal digits, minutes and seconds below 60. \<open>None\<close> when the string is not of that
  form.
\<close>

definition digit_val :: "char \<Rightarrow> nat option" where
  "digit_val c =
     (let code = (of_char c :: nat)
      in if 48 \<le> code \<and> code \<le> 57 then Some (code - 48) else None)"

fun read_digits :: "nat \<Rightarrow> string \<Rightarrow> nat option" where
  "read_digits acc [] = Some acc"
| "read_digits acc (c # cs) =
     (case digit_val c of None \<Rightarrow> None | Some d \<Rightarrow> read_digits (acc * 10 + d) cs)"

definition read_nat :: "string \<Rightarrow> nat option" where
  "read_nat s = (if s = [] then None else read_digits 0 s)"

fun colon_fields :: "string \<Rightarrow> string \<Rightarrow> string list" where
  "colon_fields cur [] = [cur]"
| "colon_fields cur (c # cs) =
     (if c = CHR '':'' then cur # colon_fields [] cs else colon_fields (cur @ [c]) cs)"

definition hms_seconds :: "string \<Rightarrow> nat option" where
  "hms_seconds s =
     (case colon_fields [] s of
        [a, b, c] \<Rightarrow>
          (case (read_nat a, read_nat b, read_nat c) of
             (Some h, Some m, Some sec) \<Rightarrow>
               if m < 60 \<and> sec < 60 then Some (h * 3600 + m * 60 + sec) else None
           | _ \<Rightarrow> None)
      | _ \<Rightarrow> None)"

section \<open>A concrete environment\<close>

text \<open>
  An environment in which nothing fails: both probes report duration 0, ffmpeg writes
  no file, every file has size 0 and no channel, and every random draw is 0. The
  concrete inputs below are variations of it.
\<close>

definition quiet_env :: env where
  "quiet_env =
     \<lparr>probe_meta = Inr (DurationNumber 0), probe_extract = Inr (DurationNumber 0),
      shots = (\<lambda>ts. []),
      fails = (\<lambda>st. None), file_size = (\<lambda>f. 0), img_channels = (\<lambda>f. []),
      math_random = (\<lambda>n. 0), num_str = (\<lambda>x. [])\<rparr>"

text \<open>The same environment, except that the probe made by \<open>extractFrames\<close> fails.\<close>

definition probe_fails_env :: env where
  "probe_fails_env = quiet_env\<lparr>probe_extract := Inl ''boom''\<rparr>"

text \<open>
  A state before any run: no temporary directory, one uploaded video \<open>v1\<close> of tenant
  \<open>t1\<close> with safety status \<open>unknown\<close>, an empty queue.
\<close>

definition fresh_world :: world where
  "fresh_world =
     \<lparr>filesys = \<lparr>tmp = None, draws = 0\<rparr>,
      videos = [''v1'' \<mapsto> \<lparr>v_tenantId = ''t1'', v_storagePath = ''t1/a.mp4'', v_status = Uploaded,
                          v_safetyStatus = Unknown, v_duration = None\<rparr>],
      processingQueue = Map.empty, job_history = [], events = []\<rparr>"

section \<open>The verdict as a function of the scores\<close>

lemma foldl_max_Max: "foldl max x xs = Max (set (x # xs))"
proof (induction xs arbitrary: x)
  case Nil
  show ?case by simp
next
  case (Cons y ys)
  have "foldl max x (y # ys) = Max (set (max x y # ys))"
    using Cons.IH [of "max x y"] by simp
  also have "\<dots> = Max (set (x # y # ys))"
    by (cases ys) (simp_all add: max.assoc)
  finally show ?case .
qed

lemma foldl_plus_sum_list: "foldl (+) a xs = a + sum_list (xs :: real list)"
  by (induction xs arbitrary: a) simp_all

lemma aggregate_max_mean:
  "scores \<noteq> [] \<Longrightarrow>
     aggregate maxT meanT scores =
       (if Max (set scores) > maxT \<or> sum_list scores / real (length scores) > meanT
        then Flagged else Safe)"
  by (cases scores) (simp_all add: aggregate_def foldl_max_Max foldl_plus_sum_list del: foldl_Cons)



text \<open>
  Claim C7 as stated fails on the doubles the code computes with: the \<open>reduce\<close> adds
  from left to right and every addition rounds, so the mean depends on the order. With
  both thresholds at the double \<open>0.4\<close>, the scores \<open>0.4, 0.4, 0.39999999999999997\<close> are
  \<open>safe\<close> and the same scores in the order \<open>0.4, 0.39999999999999997, 0.4\<close> are
  \<open>flagged\<close>.
\<close>

theorem permutation_changes_verdict_counterexample:
  "mset [fl (2 / 5), fl (2 / 5), fl (39999999999999997 / 10 ^ 17)] =
   mset [fl (2 / 5), fl (39999999999999997 / 10 ^ 17), fl (2 / 5)] \<and>
   aggregate_double (fl (2 / 5)) (fl (2 / 5))
     [fl (2 / 5), fl (2 / 5), fl (39999999999999997 / 10 ^ 17)] = Safe \<and>
   aggregate_double (fl (2 / 5)) (fl (2 / 5))
     [fl (2 / 5), fl (39999999999999997 / 10 ^ 17), fl (2 / 5)] = Flagged"
proof -
  have a: "fl (2 / 5) = 7205759403792794 / 2 ^ 54"
    by (simp add: fl_def Let_def lg2.simps)
  have b: "fl (39999999999999997 / 10 ^ 17) = 7205759403792793 / 2 ^ 54"
    by (simp add: fl_def Let_def lg2.simps)
  have s1: "avgScore_rounded fl
      [7205759403792794 / 2 ^ 54, 7205759403792794 / 2 ^ 54, 7205759403792793 / 2 ^ 54]
      = 7205759403792793 / 2 ^ 54"
    by (simp add: avgScore_rounded_def fl_def Let_def lg2.simps)
  have s2: "avgScore_rounded fl
      [7205759403792794 / 2 ^ 54, 7205759403792793 / 2 ^ 54, 7205759403792794 / 2 ^ 54]
      = 7205759403792795 / 2 ^ 54"
    by (simp add: avgScore_rounded_def fl_def Let_def lg2.simps)
  show ?thesis
    unfolding a b aggregate_double_def aggregate_rounded_def s1 s2
    by simp
qed

lemma aggregate_rounded_max_mean:
  "scores \<noteq> [] \<Longrightarrow>
     aggregate_rounded rnd maxT meanT scores =
       (if Max (set scores) > maxT \<or> avgScore_rounded rnd scores > meanT
        then Flagged else Safe)"
  by (cases scores) (simp_all add: aggregate_rounded_def foldl_max_Max del: foldl_Cons)

lemma aggregate_rounded_id:
  "aggregate_rounded (\<lambda>x. x) maxT meanT scores = aggregate maxT meanT scores"
  by (simp add: aggregate_rounded_def aggregate_def avgScore_rounded_def)

lemma aggregate_exact_permutation:
  assumes p: "mset xs = mset ys"
  shows "aggregate maxT meanT xs = aggregate maxT meanT ys"
proof (cases "xs = []")
  case True
  with p show ?thesis by simp
next
  case False
  with p have ne: "ys \<noteq> []" by auto
  from p have "set xs = set ys" by (rule mset_eq_setD)
  moreover from p have "sum_list xs = sum_list ys"
    by (metis sum_mset_sum_list)
  moreover from p have "length xs = length ys" by (rule mset_eq_length)
  ultimately show ?thesis using False ne by (simp add: aggregate_max_mean)
qed

text \<open>
  Claim C7, amended. For non-empty score sequences the verdict depends on the maximum
  and on the mean as the code computes it (the sum of the doubles from left to right,
  divided by the count) only: two sequences with the same maximum and the same
  computed mean get the same verdict, and a permutation of a sequence gets the same
  verdict whenever it leaves the computed mean unchanged. In exact arithmetic, without
  rounding, every permutation gets the same verdict.
\<close>

theorem aggregate_depends_on_max_and_computed_mean:
  "(xs \<noteq> [] \<and> ys \<noteq> [] \<and> Max (set xs) = Max (set ys) \<and>
    avgScore_rounded fl xs = avgScore_rounded fl ys \<longrightarrow>
      aggregate_double maxT meanT xs = aggregate_double maxT meanT ys) \<and>
   (mset xs = mset ys \<and> avgScore_rounded fl xs = avgScore_rounded fl ys \<longrightarrow>
      aggregate_double maxT meanT xs = aggregate_double maxT meanT ys) \<and>
   (mset xs = mset ys \<longrightarrow>
      aggregate_rounded (\<lambda>x. x) maxT meanT xs = aggregate_rounded (\<lambda>x. x) maxT meanT ys)"
proof (intro conjI impI)
  assume "xs \<noteq> [] \<and> ys \<noteq> [] \<and> Max (set xs) = Max (set ys) \<and>
    avgScore_rounded fl xs = avgScore_rounded fl ys"
  then show "aggregate_double maxT meanT xs = aggregate_double maxT meanT ys"
    by (simp add: aggregate_double_def aggregate_rounded_max_mean)
next
  assume h: "mset xs = mset ys \<and> avgScore_rounded fl xs = avgScore_rounded fl ys"
  show "aggregate_double maxT meanT xs = aggregate_double maxT meanT ys"
  proof (cases "xs = []")
    case True
    with h show ?thesis by simp
  next
    case False
    with h have "ys \<noteq> []" by auto
    moreover from h have "set xs = set ys" by (metis mset_eq_setD)
    ultimately show ?thesis
      using False h by (simp add: aggregate_double_def aggregate_rounded_max_mean)
  qed
next
  assume "mset xs = mset ys"
  then show "aggregate_rounded (\<lambda>x. x) maxT meanT xs = aggregate_rounded (\<lambda>x. x) maxT meanT ys"
    unfolding aggregate_rounded_id by (rule aggregate_exact_permutation)
qed

theorem aggregate_depends_on_max_and_computed_mean_witness:
  "[1 / 4, 3 / 4, 1 / 2 :: real] \<noteq> [] \<and> [3 / 8, 3 / 8, 3 / 4 :: real] \<noteq> [] \<and>
   [1 / 4, 3 / 4, 1 / 2 :: real] \<noteq> [3 / 8, 3 / 8, 3 / 4] \<and>
   Max (set [1 / 4, 3 / 4, 1 / 2 :: real]) = Max (set [3 / 8, 3 / 8, 3 / 4]) \<and>
   avgScore_rounded fl [1 / 4, 3 / 4, 1 / 2] = avgScore_rounded fl [3 / 8, 3 / 8, 3 / 4] \<and>
   aggregate_double (fl (7 / 10)) (fl (1 / 2)) [1 / 4, 3 / 4, 1 / 2] =
   aggregate_double (fl (7 / 10)) (fl (1 / 2)) [3 / 8, 3 / 8, 3 / 4] \<and>
   mset [1 / 4, 3 / 4, 1 / 2 :: real] = mset [1 / 2, 1 / 4, 3 / 4] \<and>
   avgScore_rounded fl [1 / 4, 3 / 4, 1 / 2] = avgScore_rounded fl [1 / 2, 1 / 4, 3 / 4] \<and>
   aggregate_double (fl (7 / 10)) (fl (1 / 2)) [1 / 4, 3 / 4, 1 / 2] =
   aggregate_double (fl (7 / 10)) (fl (1 / 2)) [1 / 2, 1 / 4, 3 / 4] \<and>
   aggregate_rounded (\<lambda>x. x) (7 / 10) (1 / 2) [1 / 4, 3 / 4, 1 / 2] =
   aggregate_rounded (\<lambda>x. x) (7 / 10) (1 / 2) [1 / 2, 1 / 4, 3 / 4]"
proof -
  have m: "Max (set [1 / 4, 3 / 4, 1 / 2 :: real]) = Max (set [3 / 8, 3 / 8, 3 / 4])"
    by simp
  have a1: "avgScore_rounded fl [1 / 4, 3 / 4, 1 / 2] = 1 / 2"
    by (simp add: avgScore_rounded_def fl_def Let_def lg2.simps)
  have a2: "avgScore_rounded fl [3 / 8, 3 / 8, 3 / 4] = 1 / 2"
    by (simp add: avgScore_rounded_def fl_def Let_def lg2.simps)
  have a3: "avgScore_rounded fl [1 / 2, 1 / 4, 3 / 4] = 1 / 2"
    by (simp add: avgScore_rounded_def fl_def Let_def lg2.simps)
  have p: "mset [1 / 4, 3 / 4, 1 / 2 :: real] = mset [1 / 2, 1 / 4, 3 / 4]"
    by simp
  have e1: "avgScore_rounded fl [1 / 4, 3 / 4, 1 / 2] = avgScore_rounded fl [3 / 8, 3 / 8, 3 / 4]"
    by (simp only: a1 a2)
  have e2: "avgScore_rounded fl [1 / 4, 3 / 4, 1 / 2] = avgScore_rounded fl [1 / 2, 1 / 4, 3 / 4]"
    by (simp only: a1 a3)
  note t1 = aggregate_depends_on_max_and_computed_mean
    [of "[1 / 4, 3 / 4, 1 / 2]" "[3 / 8, 3 / 8, 3 / 4]" "fl (7 / 10)" "fl (1 / 2)"]
  note t2 = aggregate_depends_on_max_and_computed_mean
    [of "[1 / 4, 3 / 4, 1 / 2]" "[1 / 2, 1 / 4, 3 / 4]" "fl (7 / 10)" "fl (1 / 2)"]
  note t3 = aggregate_depends_on_max_and_computed_mean
    [of "[1 / 4, 3 / 4, 1 / 2]" "[1 / 2, 1 / 4, 3 / 4]" "7 / 10" "1 / 2"]
  from t1 m e1 have r1: "aggregate_double (fl (7 / 10)) (fl (1 / 2)) [1 / 4, 3 / 4, 1 / 2] =
     aggregate_double (fl (7 / 10)) (fl (1 / 2)) [3 / 8, 3 / 8, 3 / 4]"
    by simp
  from t2 p e2 have r2: "aggregate_double (fl (7 / 10)) (fl (1 / 2)) [1 / 4, 3 / 4, 1 / 2] =
     aggregate_double (fl (7 / 10)) (fl (1 / 2)) [1 / 2, 1 / 4, 3 / 4]"
    by blast
  from t3 p have r3: "aggregate_rounded (\<lambda>x. x) (7 / 10) (1 / 2) [1 / 4, 3 / 4, 1 / 2] =
     aggregate_rounded (\<lambda>x. x) (7 / 10) (1 / 2) [1 / 2, 1 / 4, 3 / 4]"
    by blast
  from m e1 e2 p r1 r2 r3 show ?thesis
    by simp
qed

section \<open>The timestamps of extractFrames\<close>

lemma timestamp_zero: "timestamp other 0 = ''00:00:00''"
  by (simp add: timestamp_def timestamp_parts_def js_rem_def String_num_def padStart_def
      decimal.simps)

text \<open>
  Claim C2 as stated fails for a probed duration of 0: the loop runs once
  (\<open>Math.max(1, ...)\<close>) and pushes the timestamp of second 0, so the fallback
  \<open>"00:00:01"\<close> is not taken.
\<close>

theorem zero_duration_timestamp_counterexample:
  "genTimestamps (\<lambda>x. []) 30 (DurationNumber 0) 5 = [''00:00:00''] \<and>
   genTimestamps (\<lambda>x. []) 10 (DurationNumber 0) 5 = [''00:00:00''] \<and>
   genTimestamps (\<lambda>x. []) 30 (DurationNumber 0) 5 \<noteq> [''00:00:01''] \<and>
   genTimestamps (\<lambda>x. []) 10 (DurationNumber 0) 5 \<noteq> [''00:00:01'']"
  by (simp add: genTimestamps_def duration_or_zero_def numFrames_def timestamp_zero)

text \<open>
  Claim C2, amended. For a video whose probed duration is unknown (the probe reports
  a text that is not a number, such as \<open>N/A\<close>), frame extraction generates exactly
  one timestamp, at 1 second, whatever the interval and the cap. For a probed duration
  of 0, and for a missing duration field, which the code reads as 0, it generates
  exactly one timestamp for every non-zero interval, and that timestamp is
  \<open>00:00:00\<close>, the start of the video.
\<close>

theorem unknown_or_zero_duration_one_timestamp:
  "(s \<noteq> [] \<longrightarrow> genTimestamps other cap (DurationText s) interval = [''00:00:01'']) \<and>
   (interval \<noteq> 0 \<longrightarrow>
      genTimestamps other cap (DurationNumber 0) interval = [''00:00:00''] \<and>
      genTimestamps other cap DurationUndefined interval = [''00:00:00''])"
  by (simp add: genTimestamps_def duration_or_zero_def numFrames_def timestamp_zero max_def min_def)

theorem unknown_or_zero_duration_one_timestamp_witness:
  "''N/A'' \<noteq> [] \<and> (5::real) \<noteq> 0 \<and>
   genTimestamps (\<lambda>x. []) 30 (DurationText ''N/A'') 5 = [''00:00:01''] \<and>
   genTimestamps (\<lambda>x. []) 10 (DurationText ''N/A'') 5 = [''00:00:01''] \<and>
   genTimestamps (\<lambda>x. []) 30 (DurationNumber 0) 5 = [''00:00:00''] \<and>
   genTimestamps (\<lambda>x. []) 10 DurationUndefined 5 = [''00:00:00'']"
  using unknown_or_zero_duration_one_timestamp [of "''N/A''" "\<lambda>x. []" 30 5]
    unknown_or_zero_duration_one_timestamp [of "''N/A''" "\<lambda>x. []" 10 5]
  by simp

text \<open>
  The three numbers printed for a second count \<open>s \<ge> 0\<close> are its hours, minutes and
  seconds.
\<close>

lemma timestamp_parts_sum:
  assumes "0 \<le> s"
  shows "case timestamp_parts s of
           (h, m, sec) \<Rightarrow>
             h * 3600 + m * 60 + sec = s \<and> 0 \<le> h \<and> 0 \<le> m \<and> m < 60 \<and> 0 \<le> sec \<and> sec < 60"
proof -
  define a where "a = \<lfloor>s / 3600\<rfloor>"
  define b where "b = \<lfloor>s / 60\<rfloor>"
  have r: "js_rem s 3600 = s - 3600 * real_of_int a"
    using assms by (simp add: js_rem_def a_def)
  have r60: "js_rem s 60 = s - 60 * real_of_int b"
    using assms by (simp add: js_rem_def b_def)
  have "\<lfloor>(s - 3600 * real_of_int a) / 60\<rfloor> = \<lfloor>s / 60 - real_of_int (60 * a)\<rfloor>"
    by (simp add: diff_divide_distrib)
  also have "\<dots> = b - 60 * a"
    unfolding b_def by (rule floor_diff_of_int)
  finally have m: "\<lfloor>js_rem s 3600 / 60\<rfloor> = b - 60 * a"
    by (simp add: r)
  have a0: "0 \<le> a" using assms by (simp add: a_def)
  have "real_of_int a \<le> s / 3600" "s / 3600 < real_of_int a + 1"
    unfolding a_def by linarith+
  then have ra: "0 \<le> s - 3600 * real_of_int a" "s - 3600 * real_of_int a < 3600"
    by (simp_all add: field_simps)
  have "real_of_int b \<le> s / 60" "s / 60 < real_of_int b + 1"
    unfolding b_def by linarith+
  then have rb: "0 \<le> s - 60 * real_of_int b" "s - 60 * real_of_int b < 60"
    by (simp_all add: field_simps)
  have "0 \<le> \<lfloor>js_rem s 3600 / 60\<rfloor>" "\<lfloor>js_rem s 3600 / 60\<rfloor> < 60"
    using ra by (simp_all add: r floor_less_iff)
  then have mb: "0 \<le> b - 60 * a" "b - 60 * a < 60"
    by (simp_all add: m)
  show ?thesis
    using a0 mb rb
    by (simp add: timestamp_parts_def m r60 flip: a_def)
qed

lemma timestamp_layout:
  assumes "0 \<le> s"
  shows "\<exists>h m sec. 0 \<le> h \<and> 0 \<le> m \<and> m < 60 \<and> 0 \<le> sec \<and> sec < 60 \<and>
           real_of_int h * 3600 + real_of_int m * 60 + sec = s \<and>
           timestamp other s =
             padStart 2 CHR ''0'' (String_num other (real_of_int h)) @ '':'' @
             padStart 2 CHR ''0'' (String_num other (real_of_int m)) @ '':'' @
             padStart 2 CHR ''0'' (String_num other sec)"
proof -
  let ?h = "\<lfloor>s / 3600\<rfloor>" and ?m = "\<lfloor>js_rem s 3600 / 60\<rfloor>" and ?sec = "js_rem s 60"
  have p: "timestamp_parts s = (real_of_int ?h, real_of_int ?m, ?sec)"
    by (simp add: timestamp_parts_def)
  from timestamp_parts_sum [OF assms]
  have "real_of_int ?h * 3600 + real_of_int ?m * 60 + ?sec = s \<and> 0 \<le> ?h \<and>
      0 \<le> ?m \<and> ?m < 60 \<and> 0 \<le> ?sec \<and> ?sec < 60"
    unfolding p by simp
  moreover have "timestamp other s =
             padStart 2 CHR ''0'' (String_num other (real_of_int ?h)) @ '':'' @
             padStart 2 CHR ''0'' (String_num other (real_of_int ?m)) @ '':'' @
             padStart 2 CHR ''0'' (String_num other ?sec)"
    by (simp add: timestamp_def p)
  ultimately show ?thesis
    by blast
qed

text \<open>Reading back what the code prints for a whole number of seconds.\<close>

lemma digit_val_digit: "n < 10 \<Longrightarrow> digit_val (''0123456789'' ! n) = Some n"
proof -
  assume "n < 10"
  then have "n \<in> {0, 1, 2, 3, 4, 5, 6, 7, 8, 9}"
    by auto
  then show ?thesis
    by (auto simp: digit_val_def)
qed

lemma digit_not_colon: "n < 10 \<Longrightarrow> ''0123456789'' ! n \<noteq> CHR '':''"
proof -
  assume "n < 10"
  then have "n \<in> {0, 1, 2, 3, 4, 5, 6, 7, 8, 9}"
    by auto
  then show ?thesis
    by auto
qed

lemma read_digits_snoc:
  "read_digits acc (xs @ [c]) =
     (case read_digits acc xs of
        None \<Rightarrow> None
      | Some v \<Rightarrow> (case digit_val c of None \<Rightarrow> None | Some d \<Rightarrow> Some (v * 10 + d)))"
  by (induction xs arbitrary: acc) (simp_all split: option.splits)

lemma read_digits_decimal: "read_digits 0 (decimal n) = Some n"
proof (induction n rule: decimal.induct)
  case (1 n)
  show ?case
  proof (cases "n < 10")
    case True
    then show ?thesis
      by (subst decimal.simps) (simp add: digit_val_digit)
  next
    case False
    have "n mod 10 < 10" by simp
    then have d: "digit_val (''0123456789'' ! (n mod 10)) = Some (n mod 10)"
      by (rule digit_val_digit)
    from False have "read_digits 0 (decimal (n div 10)) = Some (n div 10)"
      by (rule "1.IH")
    with False d show ?thesis
      by (subst decimal.simps) (simp add: read_digits_snoc)
  qed
qed

lemma decimal_not_Nil: "decimal n \<noteq> []"
  by (subst decimal.simps) simp

lemma decimal_no_colon: "CHR '':'' \<notin> set (decimal n)"
proof (induction n rule: decimal.induct)
  case (1 n)
  show ?case
  proof (cases "n < 10")
    case True
    then show ?thesis
      using digit_not_colon [of n] by (subst decimal.simps) auto
  next
    case False
    have "n mod 10 < 10" by simp
    then have "''0123456789'' ! (n mod 10) \<noteq> CHR '':''"
      by (rule digit_not_colon)
    moreover from False have "CHR '':'' \<notin> set (decimal (n div 10))"
      by (rule "1.IH")
    ultimately show ?thesis
      using False by (subst decimal.simps) auto
  qed
qed

lemma read_digits_zeros: "read_digits 0 (replicate j CHR ''0'' @ xs) = read_digits 0 xs"
  by (induction j) (simp_all add: digit_val_def)

lemma read_nat_pad: "read_nat (padStart 2 CHR ''0'' (decimal n)) = Some n"
  by (simp add: read_nat_def padStart_def read_digits_zeros read_digits_decimal decimal_not_Nil)

lemma pad_no_colon: "CHR '':'' \<notin> set (padStart 2 CHR ''0'' (decimal n))"
  using decimal_no_colon [of n] by (auto simp: padStart_def)

lemma colon_fields_last: "CHR '':'' \<notin> set a \<Longrightarrow> colon_fields cur a = [cur @ a]"
  by (induction a arbitrary: cur) auto

lemma colon_fields_field:
  "CHR '':'' \<notin> set a \<Longrightarrow> colon_fields cur (a @ CHR '':'' # r) = (cur @ a) # colon_fields [] r"
  by (induction a arbitrary: cur) auto

lemma hms_seconds_layout:
  assumes "m < 60" "sec < 60"
  shows "hms_seconds (padStart 2 CHR ''0'' (decimal h) @ '':'' @
                      padStart 2 CHR ''0'' (decimal m) @ '':'' @
                      padStart 2 CHR ''0'' (decimal sec)) = Some (h * 3600 + m * 60 + sec)"
proof -
  have "colon_fields [] (padStart 2 CHR ''0'' (decimal h) @ '':'' @
                      padStart 2 CHR ''0'' (decimal m) @ '':'' @
                      padStart 2 CHR ''0'' (decimal sec)) =
        [padStart 2 CHR ''0'' (decimal h), padStart 2 CHR ''0'' (decimal m),
         padStart 2 CHR ''0'' (decimal sec)]"
    by (simp add: colon_fields_field colon_fields_last pad_no_colon)
  then show ?thesis
    using assms by (simp add: hms_seconds_def read_nat_pad)
qed

lemma String_num_whole: "real k < 10 ^ 21 \<Longrightarrow> String_num other (real k) = decimal k"
  by (simp add: String_num_def)

lemma floor_real_div: "\<lfloor>real n / real d\<rfloor> = int (n div d)"
  by (rule floor_divide_of_nat_eq)

lemma js_rem_whole: "0 < d \<Longrightarrow> js_rem (real n) (real d) = real (n mod d)"
proof -
  assume "0 < d"
  have "real n = real (d * (n div d) + n mod d)"
    by simp
  then have "real n - real d * real (n div d) = real (n mod d)"
    unfolding of_nat_add of_nat_mult by linarith
  then show ?thesis
    by (simp add: js_rem_def floor_real_div)
qed

lemma timestamp_parts_whole:
  "timestamp_parts (real n) =
     (real (n div 3600), real (n mod 3600 div 60), real (n mod 60))"
proof -
  have a: "\<lfloor>real n / 3600\<rfloor> = int (n div 3600)"
    using floor_real_div [of n 3600] by simp
  have b: "js_rem (real n) 3600 = real (n mod 3600)"
    using js_rem_whole [of 3600 n] by simp
  have c: "js_rem (real n) 60 = real (n mod 60)"
    using js_rem_whole [of 60 n] by simp
  have d: "\<lfloor>real (n mod 3600) / 60\<rfloor> = int (n mod 3600 div 60)"
    using floor_real_div [of "n mod 3600" 60] by simp
  show ?thesis
    by (simp add: timestamp_parts_def a b c d)
qed

lemma hms_seconds_timestamp:
  assumes "n div 3600 < 10 ^ 21"
  shows "hms_seconds (timestamp other (real n)) = Some n"
proof -
  have h: "real (n div 3600) < 10 ^ 21"
    using assms by (metis of_nat_less_iff of_nat_numeral of_nat_power)
  have "n mod 3600 div 60 < 60"
    by (simp add: less_mult_imp_div_less)
  moreover have "(60::nat) < 10 ^ 21"
    by simp
  ultimately have "n mod 3600 div 60 < 10 ^ 21"
    by (rule less_trans)
  then have m: "real (n mod 3600 div 60) < 10 ^ 21"
    by (metis of_nat_less_iff of_nat_numeral of_nat_power)
  have "n mod 60 < 10 ^ 21"
    by (rule less_trans [of _ 60]) simp_all
  then have s: "real (n mod 60) < 10 ^ 21"
    by (metis of_nat_less_iff of_nat_numeral of_nat_power)
  have t: "timestamp other (real n) =
      padStart 2 CHR ''0'' (decimal (n div 3600)) @ '':'' @
      padStart 2 CHR ''0'' (decimal (n mod 3600 div 60)) @ '':'' @
      padStart 2 CHR ''0'' (decimal (n mod 60))"
    by (simp only: timestamp_def timestamp_parts_whole prod.case
        String_num_whole [OF h] String_num_whole [OF m] String_num_whole [OF s])
  have "n div 3600 * 3600 + n mod 3600 div 60 * 60 + n mod 60 = n"
  proof -
    have "n mod 3600 div 60 * 60 + n mod 3600 mod 60 = n mod 3600"
      by simp
    moreover have "n mod 3600 mod 60 = n mod 60"
      by (simp add: mod_mod_cancel)
    moreover have "n div 3600 * 3600 + n mod 3600 = n"
      by simp
    ultimately show ?thesis
      by linarith
  qed
  moreover have "hms_seconds (padStart 2 CHR ''0'' (decimal (n div 3600)) @ '':'' @
      padStart 2 CHR ''0'' (decimal (n mod 3600 div 60)) @ '':'' @
      padStart 2 CHR ''0'' (decimal (n mod 60))) =
      Some (n div 3600 * 3600 + n mod 3600 div 60 * 60 + n mod 60)"
    by (rule hms_seconds_layout) (simp_all add: less_mult_imp_div_less)
  ultimately show ?thesis
    by (simp only: t)
qed

lemma max_min_clamp: "1 \<le> cap \<Longrightarrow> max 1 (min cap q) = clamp q 1 cap"
  by (simp add: clamp_def max_def min_def)

lemma numFrames_clamp:
  assumes "0 < interval" "1 \<le> cap"
  shows "numFrames cap (Num duration) interval = Num (clamp \<lfloor>duration / interval\<rfloor> 1 cap)"
  using assms by (simp add: numFrames_def max_min_clamp del: floor_less_cancel)

lemma genTimestamps_pos:
  assumes "0 < interval" "1 \<le> cap"
  shows "genTimestamps other cap (DurationNumber D) interval =
           map (\<lambda>i. timestamp other (real i * interval))
             [0..<nat (clamp \<lfloor>D / interval\<rfloor> 1 cap)]"
proof -
  have "1 \<le> clamp \<lfloor>D / interval\<rfloor> 1 cap"
    using assms by (simp add: clamp_def)
  then have "0 < nat (clamp \<lfloor>D / interval\<rfloor> 1 cap)" by simp
  then show ?thesis
    using assms by (simp add: genTimestamps_def duration_or_zero_def numFrames_clamp)
qed

lemma fifty_seconds_timestamps:
  "genTimestamps other 10 (DurationNumber 50) 5 =
     [''00:00:00'', ''00:00:05'', ''00:00:10'', ''00:00:15'', ''00:00:20'',
      ''00:00:25'', ''00:00:30'', ''00:00:35'', ''00:00:40'', ''00:00:45'']"
  by (simp add: genTimestamps_def duration_or_zero_def numFrames_def upt_conv_Cons timestamp_def
      timestamp_parts_def js_rem_def String_num_def padStart_def decimal.simps)

text \<open>
  Claim C3. For every probed duration \<open>D \<ge> 0\<close>, sampling interval \<open>I > 0\<close> and cap
  \<open>CAP \<ge> 1\<close> (10 and 30 in the two copies), \<open>extractFrames\<close> generates exactly
  \<open>clamp(floor(D / I), 1, CAP)\<close> timestamps, and the \<open>k\<close>-th is at \<open>k * I\<close> seconds:
  it is the string \<open>HH:MM:SS\<close> of the hours \<open>h\<close>, the minutes \<open>m < 60\<close> and the seconds
  \<open>sec < 60\<close> with \<open>3600 h + 60 m + sec = k * I\<close>; and when the interval is a whole
  number of seconds (it is 5 on every call), reading the string back as hours,
  minutes and seconds gives \<open>k * I\<close>. For 50 seconds, interval 5 and cap 10 they are the
  ten timestamps of 0, 5, ..., 45.
\<close>

theorem extractFrames_timestamps_at_multiples:
  assumes "0 \<le> D" "0 < interval" "1 \<le> cap"
  shows "length (genTimestamps other cap (DurationNumber D) interval)
           = nat (clamp \<lfloor>D / interval\<rfloor> 1 cap)
    \<and> (\<forall>k < nat (clamp \<lfloor>D / interval\<rfloor> 1 cap).
          \<exists>h m sec. 0 \<le> h \<and> 0 \<le> m \<and> m < 60 \<and> 0 \<le> sec \<and> sec < 60 \<and>
            real_of_int h * 3600 + real_of_int m * 60 + sec = real k * interval \<and>
            genTimestamps other cap (DurationNumber D) interval ! k =
              padStart 2 CHR ''0'' (String_num other (real_of_int h)) @ '':'' @
              padStart 2 CHR ''0'' (String_num other (real_of_int m)) @ '':'' @
              padStart 2 CHR ''0'' (String_num other sec))
    \<and> (\<forall>i. \<forall>k < nat (clamp \<lfloor>D / interval\<rfloor> 1 cap).
          interval = real i \<and> k * i div 3600 < 10 ^ 21 \<longrightarrow>
            hms_seconds (genTimestamps other cap (DurationNumber D) interval ! k) = Some (k * i))
    \<and> genTimestamps other 10 (DurationNumber 50) 5 =
       [''00:00:00'', ''00:00:05'', ''00:00:10'', ''00:00:15'', ''00:00:20'',
        ''00:00:25'', ''00:00:30'', ''00:00:35'', ''00:00:40'', ''00:00:45'']"
proof (intro conjI allI impI)
  show "length (genTimestamps other cap (DurationNumber D) interval)
          = nat (clamp \<lfloor>D / interval\<rfloor> 1 cap)"
    using assms by (simp add: genTimestamps_pos)
next
  fix k assume k: "k < nat (clamp \<lfloor>D / interval\<rfloor> 1 cap)"
  have n: "genTimestamps other cap (DurationNumber D) interval ! k
             = timestamp other (real k * interval)"
    using assms k by (simp add: genTimestamps_pos)
  have "0 \<le> real k * interval" using assms by simp
  from timestamp_layout [OF this, of other]
  show "\<exists>h m sec. 0 \<le> h \<and> 0 \<le> m \<and> m < 60 \<and> 0 \<le> sec \<and> sec < 60 \<and>
            real_of_int h * 3600 + real_of_int m * 60 + sec = real k * interval \<and>
            genTimestamps other cap (DurationNumber D) interval ! k =
              padStart 2 CHR ''0'' (String_num other (real_of_int h)) @ '':'' @
              padStart 2 CHR ''0'' (String_num other (real_of_int m)) @ '':'' @
              padStart 2 CHR ''0'' (String_num other sec)"
    unfolding n .
next
  fix i k
  assume k: "k < nat (clamp \<lfloor>D / interval\<rfloor> 1 cap)"
    and w: "interval = real i \<and> k * i div 3600 < 10 ^ 21"
  have "genTimestamps other cap (DurationNumber D) interval ! k
          = timestamp other (real k * interval)"
    using assms k by (simp add: genTimestamps_pos)
  also have "\<dots> = timestamp other (real (k * i))"
    using w by simp
  finally show "hms_seconds (genTimestamps other cap (DurationNumber D) interval ! k) = Some (k * i)"
    using w by (simp only: hms_seconds_timestamp)
next
  show "genTimestamps other 10 (DurationNumber 50) 5 =
       [''00:00:00'', ''00:00:05'', ''00:00:10'', ''00:00:15'', ''00:00:20'',
        ''00:00:25'', ''00:00:30'', ''00:00:35'', ''00:00:40'', ''00:00:45'']"
    by (rule fifty_seconds_timestamps)
qed

lemma timestamp_145: "timestamp other 145 = ''00:02:25''"
  by (simp add: timestamp_def timestamp_parts_def js_rem_def String_num_def padStart_def
      decimal.simps)

theorem extractFrames_timestamps_at_multiples_witness:
  "(0::real) \<le> 200 \<and> (0::real) < 5 \<and> (1::int) \<le> 30 \<and>
   length (genTimestamps (\<lambda>x. []) 30 (DurationNumber 200) 5) = 30 \<and>
   (29::nat) < 30 \<and> (5::real) = real (5::nat) \<and> (29::nat) * 5 div 3600 < 10 ^ 21 \<and>
   hms_seconds (genTimestamps (\<lambda>x. []) 30 (DurationNumber 200) 5 ! 29) = Some 145 \<and>
   genTimestamps (\<lambda>x. []) 30 (DurationNumber 200) 5 ! 29 = ''00:02:25''"
proof -
  have c: "nat (clamp \<lfloor>(200::real) / 5\<rfloor> 1 30) = 30"
    by (simp add: clamp_def)
  have h: "(0::real) \<le> 200" "(0::real) < 5" "(1::int) \<le> 30"
    by simp_all
  note t = extractFrames_timestamps_at_multiples [OF h, of "\<lambda>x. []", unfolded c]
  from t have l: "length (genTimestamps (\<lambda>x. []) 30 (DurationNumber 200) 5) = 30"
    by (rule conjunct1)
  from t have "\<forall>i. \<forall>k<30. (5::real) = real i \<and> k * i div 3600 < 10 ^ 21 \<longrightarrow>
      hms_seconds (genTimestamps (\<lambda>x. []) 30 (DurationNumber 200) 5 ! k) = Some (k * i)"
    by (elim conjE)
  then have "\<forall>k<30. (5::real) = real (5::nat) \<and> k * 5 div 3600 < 10 ^ 21 \<longrightarrow>
      hms_seconds (genTimestamps (\<lambda>x. []) 30 (DurationNumber 200) 5 ! k) = Some (k * 5)"
    by (rule spec)
  then have "(29::nat) < 30 \<longrightarrow> (5::real) = real (5::nat) \<and> (29::nat) * 5 div 3600 < 10 ^ 21 \<longrightarrow>
      hms_seconds (genTimestamps (\<lambda>x. []) 30 (DurationNumber 200) 5 ! 29) = Some (29 * 5)"
    by (rule spec)
  then have p: "hms_seconds (genTimestamps (\<lambda>x. []) 30 (DurationNumber 200) 5 ! 29) = Some 145"
    by simp
  have "genTimestamps (\<lambda>x. []) 30 (DurationNumber 200) 5 ! 29 = timestamp (\<lambda>x. []) (real 29 * 5)"
    using genTimestamps_pos [of 5 30 "\<lambda>x. []" 200] by (simp add: clamp_def)
  then have s: "genTimestamps (\<lambda>x. []) 30 (DurationNumber 200) 5 ! 29 = ''00:02:25''"
    by (simp add: timestamp_145)
  from l p s show ?thesis
    by simp
qed

section \<open>The frame scorers\<close>

lemma frame_score_range: "0 \<le> frame_score n r g b \<and> frame_score n r g b \<le> 1"
  unfolding frame_score_def Let_def by (rule conjI) (rule max.coboundedI1, simp, simp)

lemma analyzeFrame_range: "0 \<le> analyzeFrame e f \<and> analyzeFrame e f \<le> 1"
  by (simp add: analyzeFrame_def analyzeFrame_try_def frame_score_range
      split: option.splits list.splits sum.splits)

lemma analyzeFrame_sizeonly_cases:
  "fst (analyzeFrame_sizeonly e n f) =
     (case fails e (StatFrame f) of
        Some m \<Rightarrow> 0
      | None \<Rightarrow> min 1 ((if file_size e f < 1000 then 0.1 else 0.05) + math_random e n * 0.2))"
  by (simp add: analyzeFrame_sizeonly_def analyzeFrame_sizeonly_try_def Let_def split: option.splits)

lemma analyzeFrame_sizeonly_range:
  assumes "0 \<le> math_random e n" "math_random e n < 1"
  shows "0 \<le> fst (analyzeFrame_sizeonly e n f)" "fst (analyzeFrame_sizeonly e n f) < 0.3"
  using assms by (simp_all add: analyzeFrame_sizeonly_cases split: option.splits)

lemma length_score_all: "length (fst (score_all sc n fs)) = length fs"
  by (induction fs arbitrary: n) (simp_all add: case_prod_beta)

text \<open>
  Claim C5. For every frame path and every environment, the frame scorer returns a
  value in \<open>[0, 1]\<close>, and when its \<open>try\<close> block throws (a failing \<open>stat\<close>, an
  unreadable image, fewer than three channels) it returns 0; so the scoring loop
  yields one score for every frame path. This holds for the pixel-statistics scorer
  and, with \<open>Math.random()\<close> in \<open>[0, 1)\<close>, for the file-size-only one.
\<close>

theorem scorer_in_unit_interval:
  "0 \<le> analyzeFrame e f \<and> analyzeFrame e f \<le> 1
   \<and> (\<forall>m. analyzeFrame_try e f = Inl m \<longrightarrow> analyzeFrame e f = 0)
   \<and> (0 \<le> math_random e n \<and> math_random e n < 1 \<longrightarrow>
        0 \<le> fst (analyzeFrame_sizeonly e n f) \<and> fst (analyzeFrame_sizeonly e n f) \<le> 1)
   \<and> (\<forall>m. fst (analyzeFrame_sizeonly_try e n f) = Inl m \<longrightarrow> fst (analyzeFrame_sizeonly e n f) = 0)
   \<and> length (fst (score_all (scorer v e) k fs)) = length fs"
proof (intro conjI allI impI)
  show "0 \<le> analyzeFrame e f" "analyzeFrame e f \<le> 1"
    using analyzeFrame_range [of e f] by simp_all
  show "analyzeFrame e f = 0" if "analyzeFrame_try e f = Inl m" for m
    using that by (simp add: analyzeFrame_def)
  show "fst (analyzeFrame_sizeonly e n f) = 0" if "fst (analyzeFrame_sizeonly_try e n f) = Inl m" for m
    using that by (simp add: analyzeFrame_sizeonly_def case_prod_beta)
  show "length (fst (score_all (scorer v e) k fs)) = length fs"
    by (rule length_score_all)
next
  assume "0 \<le> math_random e n \<and> math_random e n < 1"
  then have r: "0 \<le> math_random e n" "math_random e n < 1"
    by blast+
  show "0 \<le> fst (analyzeFrame_sizeonly e n f)"
    using r by (rule analyzeFrame_sizeonly_range(1))
  have "fst (analyzeFrame_sizeonly e n f) < 0.3"
    using r by (rule analyzeFrame_sizeonly_range(2))
  then show "fst (analyzeFrame_sizeonly e n f) \<le> 1"
    by linarith
qed

theorem scorer_in_unit_interval_witness:
  "analyzeFrame_try (quiet_env\<lparr>fails := (\<lambda>st. if st = StatFrame ''bad.jpg'' then Some ''ENOENT'' else None)\<rparr>) ''bad.jpg'' = Inl ''ENOENT''
   \<and> analyzeFrame (quiet_env\<lparr>fails := (\<lambda>st. if st = StatFrame ''bad.jpg'' then Some ''ENOENT'' else None)\<rparr>) ''bad.jpg'' = 0
   \<and> analyzeFrame_try quiet_env ''grey.jpg'' = Inl ''TypeError''
   \<and> analyzeFrame quiet_env ''grey.jpg'' = 0
   \<and> 0 \<le> math_random quiet_env 0 \<and> math_random quiet_env 0 < 1
   \<and> fst (analyzeFrame_sizeonly quiet_env 0 ''f.jpg'') \<le> 1
   \<and> fst (analyzeFrame_sizeonly_try (quiet_env\<lparr>fails := (\<lambda>st. if st = StatFrame ''bad.jpg'' then Some ''ENOENT'' else None)\<rparr>) 0 ''bad.jpg'') = Inl ''ENOENT''
   \<and> fst (analyzeFrame_sizeonly (quiet_env\<lparr>fails := (\<lambda>st. if st = StatFrame ''bad.jpg'' then Some ''ENOENT'' else None)\<rparr>) 0 ''bad.jpg'') = 0"
proof -
  let ?e = "quiet_env\<lparr>fails := (\<lambda>st. if st = StatFrame ''bad.jpg'' then Some ''ENOENT'' else None)\<rparr>"
  have a: "analyzeFrame_try ?e ''bad.jpg'' = Inl ''ENOENT''"
    by (simp add: analyzeFrame_try_def quiet_env_def)
  have b: "analyzeFrame_try quiet_env ''grey.jpg'' = Inl ''TypeError''"
    by (simp add: analyzeFrame_try_def quiet_env_def)
  have c: "0 \<le> math_random quiet_env 0 \<and> math_random quiet_env 0 < 1"
    by (simp add: quiet_env_def)
  have d: "fst (analyzeFrame_sizeonly_try ?e 0 ''bad.jpg'') = Inl ''ENOENT''"
    by (simp add: analyzeFrame_sizeonly_try_def quiet_env_def)
  note t1 = scorer_in_unit_interval [of ?e "''bad.jpg''" 0]
  note t2 = scorer_in_unit_interval [of quiet_env "''grey.jpg''" 0]
  from t1 a have a': "analyzeFrame ?e ''bad.jpg'' = 0" by blast
  from t2 b have b': "analyzeFrame quiet_env ''grey.jpg'' = 0" by blast
  from scorer_in_unit_interval [of quiet_env "''f.jpg''" 0] c
  have c': "fst (analyzeFrame_sizeonly quiet_env 0 ''f.jpg'') \<le> 1" by blast
  from t1 d have d': "fst (analyzeFrame_sizeonly ?e 0 ''bad.jpg'') = 0" by blast
  from a a' b b' c c' d d' show ?thesis by blast
qed

section \<open>The verdict of a run\<close>

lemma extractFrames_random [simp]:
  "extractFrames cap (e\<lparr>math_random := r\<rparr>) i s = extractFrames cap e i s"
  by (simp add: extractFrames_def Let_def cong: option.case_cong sum.case_cong)

lemma extractFrames_draws:
  "extractFrames cap e i (s\<lparr>draws := n\<rparr>) =
     (fst (extractFrames cap e i s), (snd (extractFrames cap e i s))\<lparr>draws := n\<rparr>)"
  by (simp add: extractFrames_def Let_def split: option.splits sum.splits)

lemma extractFrames_keeps_draws:
  "draws (snd (extractFrames cap e i s)) = draws s"
  by (simp add: extractFrames_def Let_def split: option.splits sum.splits)

text \<open>The verdict of a run, without the state.\<close>

lemma analyzeVideoSensitivity_verdict:
  "fst (analyzeVideoSensitivity v e s) =
     (case fst (extractFrames (frame_cap v) e 5 s) of
        Inl m \<Rightarrow> Safe
      | Inr framePaths \<Rightarrow>
          aggregate (max_threshold v) (mean_threshold v)
            (fst (score_all (scorer v e) (Suc (draws s)) framePaths)))"
proof -
  have a: "aggregate maxT meanT [] = Safe" for maxT meanT
    by (simp add: aggregate_def)
  show ?thesis
    by (simp add: analyzeVideoSensitivity_def Let_def extractFrames_draws case_prod_beta a
        split: sum.splits)
qed

lemma score_all_pixel:
  "fst (score_all (scorer pixel_variant e) n fs) = map (analyzeFrame e) fs"
  by (induction fs arbitrary: n) (simp_all add: pixel_variant_def case_prod_beta)

lemma analyzeFrame_random [simp]:
  "analyzeFrame (e\<lparr>math_random := r\<rparr>) = analyzeFrame e"
  by (rule ext)
    (simp add: analyzeFrame_def analyzeFrame_try_def
      cong: option.case_cong sum.case_cong list.case_cong)

lemma score_all_bound:
  assumes "\<And>n f. fst (sc n f) < b"
  shows "\<forall>x \<in> set (fst (score_all sc n fs)). x < b"
  using assms by (induction fs arbitrary: n) (simp_all add: case_prod_beta)

lemma sum_list_bound:
  "\<forall>x \<in> set xs. x \<le> (b::real) \<Longrightarrow> sum_list xs \<le> real (length xs) * b"
  by (induction xs) (auto simp: algebra_simps)

lemma aggregate_below_thresholds:
  assumes "\<forall>x \<in> set scores. x < b" "b \<le> maxT" "b \<le> meanT"
  shows "aggregate maxT meanT scores = Safe"
proof (cases "scores = []")
  case True
  then show ?thesis by (simp add: aggregate_def)
next
  case False
  have "Max (set scores) \<in> set scores"
    using False by (intro Max_in) simp_all
  with assms have m: "\<not> Max (set scores) > maxT"
    by fastforce
  have "sum_list scores \<le> real (length scores) * b"
    using assms(1) by (intro sum_list_bound) fastforce
  moreover have "0 < real (length scores)"
    using False by simp
  ultimately have "sum_list scores / real (length scores) \<le> b"
    by (simp add: field_simps)
  with assms have "\<not> sum_list scores / real (length scores) > meanT"
    by linarith
  with m False show ?thesis
    by (simp add: aggregate_max_mean)
qed

lemma analyzeFrame_sizeonly_below:
  assumes "\<forall>n. 0 \<le> math_random e n \<and> math_random e n < 1"
  shows "fst (analyzeFrame_sizeonly e n f) < 0.3"
  using assms analyzeFrame_sizeonly_range(2) [of e n f] by blast

lemma sizeonly_always_safe:
  assumes "\<forall>n. 0 \<le> math_random e n \<and> math_random e n < 1"
  shows "fst (analyzeVideoSensitivity sizeonly_variant e s) = Safe"
proof -
  have "\<forall>x \<in> set (fst (score_all (analyzeFrame_sizeonly e) n fs)). x < 0.3" for n fs
    using assms by (intro score_all_bound analyzeFrame_sizeonly_below)
  then have "aggregate 0.7 0.5 (fst (score_all (analyzeFrame_sizeonly e) n fs)) = Safe" for n fs
    by (rule aggregate_below_thresholds) simp_all
  then show ?thesis
    by (simp add: analyzeVideoSensitivity_verdict sizeonly_variant_def split: sum.splits)
qed

text \<open>
  Claim C10. In the file-size-only copy, with \<open>Math.random()\<close> in \<open>[0, 1)\<close>, every
  frame score is strictly below 0.3 (a base score of at most 0.1 plus a variation
  strictly below 0.2), so with the thresholds 0.7 and 0.5 the verdict of
  \<open>analyzeVideoSensitivity\<close> is \<open>safe\<close> in every environment and every state: this
  copy never returns \<open>flagged\<close>.
\<close>

theorem sizeonly_variant_never_flags:
  assumes "\<forall>n. 0 \<le> math_random e n \<and> math_random e n < 1"
  shows "fst (analyzeFrame_sizeonly e n f) < 0.3 \<and>
         (\<forall>k fs. \<forall>x \<in> set (fst (score_all (scorer sizeonly_variant e) k fs)). x < 0.3) \<and>
         fst (analyzeVideoSensitivity sizeonly_variant e s) = Safe"
proof (intro conjI allI)
  show "fst (analyzeFrame_sizeonly e n f) < 0.3"
    using assms by (rule analyzeFrame_sizeonly_below)
  show "\<forall>x \<in> set (fst (score_all (scorer sizeonly_variant e) k fs)). x < 0.3" for k fs
  proof -
    have "scorer sizeonly_variant e = analyzeFrame_sizeonly e"
      by (simp add: sizeonly_variant_def)
    then show ?thesis
      using score_all_bound [of "analyzeFrame_sizeonly e" "0.3" k fs]
        analyzeFrame_sizeonly_below [OF assms]
      by metis
  qed
  show "fst (analyzeVideoSensitivity sizeonly_variant e s) = Safe"
    using assms by (rule sizeonly_always_safe)
qed

text \<open>
  Claim C4 as stated fails for the file-size-only copy: its scorer draws a random
  number, so one frame of one file gets different scores on two runs.
\<close>

theorem sizeonly_scoring_random_counterexample:
  "fst (analyzeFrame_sizeonly (quiet_env\<lparr>math_random := (\<lambda>n. 0)\<rparr>) 0 ''frame_1.jpg'') = 0.1 \<and>
   fst (analyzeFrame_sizeonly (quiet_env\<lparr>math_random := (\<lambda>n. 1 / 2)\<rparr>) 0 ''frame_1.jpg'') = 0.2 \<and>
   fst (analyzeFrame_sizeonly (quiet_env\<lparr>math_random := (\<lambda>n. 0)\<rparr>) 0 ''frame_1.jpg'') \<noteq>
   fst (analyzeFrame_sizeonly (quiet_env\<lparr>math_random := (\<lambda>n. 1 / 2)\<rparr>) 0 ''frame_1.jpg'')"
  by (simp add: analyzeFrame_sizeonly_cases quiet_env_def)

text \<open>
  Claim C4, amended. The pixel-statistics scorer and the aggregation use no random
  number: the score of a frame and the verdict of \<open>analyzeVideoSensitivity\<close> are the
  same whatever \<open>Math.random()\<close> returns and however often it was called before. The
  file-size-only scorer does depend on the random draws, but with the draws in
  \<open>[0, 1)\<close> two runs in the same environment still return the same verdict.
\<close>

theorem verdict_independent_of_random:
  "analyzeFrame (e\<lparr>math_random := ra\<rparr>) f = analyzeFrame (e\<lparr>math_random := rb\<rparr>) f \<and>
   fst (analyzeVideoSensitivity pixel_variant (e\<lparr>math_random := ra\<rparr>) (s\<lparr>draws := na\<rparr>)) =
   fst (analyzeVideoSensitivity pixel_variant (e\<lparr>math_random := rb\<rparr>) (s\<lparr>draws := nb\<rparr>)) \<and>
   ((\<forall>n. 0 \<le> ra n \<and> ra n < 1) \<and> (\<forall>n. 0 \<le> rb n \<and> rb n < 1) \<longrightarrow>
      fst (analyzeVideoSensitivity sizeonly_variant (e\<lparr>math_random := ra\<rparr>) (s\<lparr>draws := na\<rparr>)) =
      fst (analyzeVideoSensitivity sizeonly_variant (e\<lparr>math_random := rb\<rparr>) (s\<lparr>draws := nb\<rparr>)))"
proof (intro conjI impI)
  show "analyzeFrame (e\<lparr>math_random := ra\<rparr>) f = analyzeFrame (e\<lparr>math_random := rb\<rparr>) f"
    by simp
  show "fst (analyzeVideoSensitivity pixel_variant (e\<lparr>math_random := ra\<rparr>) (s\<lparr>draws := na\<rparr>)) =
    fst (analyzeVideoSensitivity pixel_variant (e\<lparr>math_random := rb\<rparr>) (s\<lparr>draws := nb\<rparr>))"
    by (simp add: analyzeVideoSensitivity_verdict score_all_pixel extractFrames_draws
        cong: sum.case_cong)
next
  assume "(\<forall>n. 0 \<le> ra n \<and> ra n < 1) \<and> (\<forall>n. 0 \<le> rb n \<and> rb n < 1)"
  then have "\<forall>n. 0 \<le> math_random (e\<lparr>math_random := ra\<rparr>) n \<and> math_random (e\<lparr>math_random := ra\<rparr>) n < 1"
    "\<forall>n. 0 \<le> math_random (e\<lparr>math_random := rb\<rparr>) n \<and> math_random (e\<lparr>math_random := rb\<rparr>) n < 1"
    by simp_all
  then show "fst (analyzeVideoSensitivity sizeonly_variant (e\<lparr>math_random := ra\<rparr>) (s\<lparr>draws := na\<rparr>)) =
      fst (analyzeVideoSensitivity sizeonly_variant (e\<lparr>math_random := rb\<rparr>) (s\<lparr>draws := nb\<rparr>))"
    by (simp add: sizeonly_always_safe)
qed

theorem sizeonly_variant_never_flags_witness:
  "(\<forall>n. 0 \<le> math_random (quiet_env\<lparr>math_random := (\<lambda>n. 9 / 10)\<rparr>) n \<and>
        math_random (quiet_env\<lparr>math_random := (\<lambda>n. 9 / 10)\<rparr>) n < 1) \<and>
   fst (analyzeFrame_sizeonly (quiet_env\<lparr>math_random := (\<lambda>n. 9 / 10)\<rparr>) 0 ''frame_1.jpg'') < 0.3 \<and>
   fst (analyzeVideoSensitivity sizeonly_variant (quiet_env\<lparr>math_random := (\<lambda>n. 9 / 10)\<rparr>)
          \<lparr>tmp = None, draws = 0\<rparr>) = Safe"
proof -
  have h: "\<forall>n. 0 \<le> math_random (quiet_env\<lparr>math_random := (\<lambda>n. 9 / 10)\<rparr>) n \<and>
        math_random (quiet_env\<lparr>math_random := (\<lambda>n. 9 / 10)\<rparr>) n < 1"
    by simp
  from h sizeonly_variant_never_flags [OF h, of 0 "''frame_1.jpg''" "\<lparr>tmp = None, draws = 0\<rparr>"]
  show ?thesis by blast
qed

theorem verdict_independent_of_random_witness:
  "(\<forall>n. (0::real) \<le> (\<lambda>n. 0) n \<and> (\<lambda>n. 0) n < (1::real)) \<and>
   (\<forall>n. (0::real) \<le> (\<lambda>n. 1 / 2) n \<and> (\<lambda>n. 1 / 2) n < (1::real)) \<and>
   fst (analyzeVideoSensitivity sizeonly_variant (quiet_env\<lparr>math_random := (\<lambda>n. 0)\<rparr>)
          (\<lparr>tmp = None, draws = 0\<rparr>\<lparr>draws := 0\<rparr>)) =
   fst (analyzeVideoSensitivity sizeonly_variant (quiet_env\<lparr>math_random := (\<lambda>n. 1 / 2)\<rparr>)
          (\<lparr>tmp = None, draws = 0\<rparr>\<lparr>draws := 7\<rparr>))"
proof -
  have h: "(\<forall>n. (0::real) \<le> (\<lambda>n. 0) n \<and> (\<lambda>n. 0) n < (1::real)) \<and>
   (\<forall>n. (0::real) \<le> (\<lambda>n. 1 / 2) n \<and> (\<lambda>n. 1 / 2) n < (1::real))"
    by simp
  from h verdict_independent_of_random [where e = quiet_env and ra = "\<lambda>n. 0" and rb = "\<lambda>n. 1 / 2"
      and s = "\<lparr>tmp = None, draws = 0\<rparr>" and na = 0 and nb = 7 and f = "''frame_1.jpg''"]
  show ?thesis by simp
qed

section \<open>The processing run\<close>

lemma emit_fields [simp]:
  "processingQueue (emit io t ev w) = processingQueue w"
  "job_history (emit io t ev w) = job_history w"
  "videos (emit io t ev w) = videos w"
  "filesys (emit io t ev w) = filesys w"
  by (simp_all add: emit_def)

lemma set_job_fields [simp]:
  "processingQueue (set_job vid j w) = (processingQueue w)(vid \<mapsto> j)"
  "job_history (set_job vid j w) = job_history w @ [j_progress j]"
  "videos (set_job vid j w) = videos w"
  "filesys (set_job vid j w) = filesys w"
  by (simp_all add: set_job_def)

lemma updateVideoStatus_fields [simp]:
  "processingQueue (snd (updateVideoStatus e st vid t f w)) = processingQueue w"
  "job_history (snd (updateVideoStatus e st vid t f w)) = job_history w"
  "filesys (snd (updateVideoStatus e st vid t f w)) = filesys w"
  by (simp_all add: updateVideoStatus_def split: option.splits)

lemma processVideo_catch_fields [simp]:
  "processingQueue (processVideo_catch e vid t io m w) vid = None"
  "job_history (processVideo_catch e vid t io m w) = job_history w"
  "filesys (processVideo_catch e vid t io m w) = filesys w"
  by (simp_all add: processVideo_catch_def Let_def)

lemma processVideo_try_history:
  "job_history (snd (processVideo_try v e vid t io w)) \<in>
     {job_history w, job_history w @ [0], job_history w @ [0, 10, 30],
      job_history w @ [0, 10, 30, 80], job_history w @ [0, 10, 30, 80, 100]}"
  by (simp add: processVideo_try_def Let_def case_prod_beta split: option.splits)

lemma processVideo_try_done:
  "fst (processVideo_try v e vid t io w) = None \<Longrightarrow>
     processingQueue (snd (processVideo_try v e vid t io w)) vid = None"
  by (simp add: processVideo_try_def Let_def case_prod_beta split: option.splits)

lemma processVideo_cases:
  "processVideo v e vid t io w =
     (case fst (processVideo_try v e vid t io (w\<lparr>job_history := []\<rparr>)) of
        None \<Rightarrow> snd (processVideo_try v e vid t io (w\<lparr>job_history := []\<rparr>))
      | Some m \<Rightarrow> processVideo_catch e vid t io m (snd (processVideo_try v e vid t io (w\<lparr>job_history := []\<rparr>))))"
  by (simp add: processVideo_def case_prod_beta)

lemma processVideo_history:
  "job_history (processVideo v e vid t io w) \<in>
     {[], [0], [0, 10, 30], [0, 10, 30, 80], [0, 10, 30, 80, 100]}"
  using processVideo_try_history [of v e vid t io "w\<lparr>job_history := []\<rparr>"]
  by (simp add: processVideo_cases split: option.splits)

text \<open>
  Claim C9. Within one run of \<open>processVideo\<close> the values taken by the job's progress
  are an initial part of 0, 10, 30, 80, 100, hence never decrease; and when the run
  returns, on the success path and on the failure path, the queue has no entry for the
  video identifier, so \<open>getProcessingStatus\<close> returns \<open>null\<close> for it.
\<close>

theorem job_progress_monotone_and_job_removed:
  "(\<exists>k. job_history (processVideo v e videoId tenantId io w) = take k [0, 10, 30, 80, 100]) \<and>
   sorted (job_history (processVideo v e videoId tenantId io w)) \<and>
   processingQueue (processVideo v e videoId tenantId io w) videoId = None \<and>
   getProcessingStatus (processVideo v e videoId tenantId io w) videoId = None"
proof -
  let ?h = "job_history (processVideo v e videoId tenantId io w)"
  have h: "?h \<in> {[], [0], [0, 10, 30], [0, 10, 30, 80], [0, 10, 30, 80, 100]}"
    by (rule processVideo_history)
  have q: "processingQueue (processVideo v e videoId tenantId io w) videoId = None"
    by (simp add: processVideo_cases processVideo_try_done split: option.splits)
  from h have "?h = take 0 [0, 10, 30, 80, 100] \<or> ?h = take 1 [0, 10, 30, 80, 100] \<or>
      ?h = take 3 [0, 10, 30, 80, 100] \<or> ?h = take 4 [0, 10, 30, 80, 100] \<or>
      ?h = take 5 [0, 10, 30, 80, 100]"
    by simp
  then have "\<exists>k. ?h = take k [0, 10, 30, 80, 100]"
    by blast
  moreover from h have "sorted ?h"
    by auto
  ultimately show ?thesis
    using q by (simp add: getProcessingStatus_def)
qed

section \<open>Clean-up and extraction failure\<close>

text \<open>
  Claim C8 fails on the path that returns early. In an environment where no call
  fails and ffmpeg leaves no \<open>.jpg\<close> file, \<open>analyzeVideoSensitivity\<close> returns \<open>safe\<close>
  at \<open>framePaths.length === 0\<close> and the directory made by \<open>extractFrames\<close> is still
  there; with one frame written, the normal path removes the frame and the directory.
\<close>

theorem no_frames_run_keeps_temp_directory:
  "(\<forall>st. fails quiet_env st = None) \<and>
   analyzeVideoSensitivity v quiet_env \<lparr>tmp = None, draws = 0\<rparr> = (Safe, \<lparr>tmp = Some [], draws = 1\<rparr>) \<and>
   analyzeVideoSensitivity pixel_variant (quiet_env\<lparr>shots := (\<lambda>ts. [''frame_1.jpg''])\<rparr>)
     \<lparr>tmp = None, draws = 0\<rparr> = (Safe, \<lparr>tmp = None, draws = 1\<rparr>)"
  by (simp add: quiet_env_def analyzeVideoSensitivity_def extractFrames_def Let_def
      write_files_def endsWith_def pixel_variant_def analyzeFrame_def analyzeFrame_try_def
      aggregate_def unlink_def rmdirSync_def)

text \<open>
  When no clean-up call fails, the \<open>catch\<close> block's clean-up empties and removes the
  directory.
\<close>

lemma unlink_all_ok:
  assumes "\<forall>f. fails e (UnlinkCleanup f) = None"
  shows "tmp s = Some fs \<Longrightarrow> unlink_all e fs s = (None, s\<lparr>tmp := Some []\<rparr>)"
proof (induction fs arbitrary: s)
  case Nil
  then show ?case by simp
next
  case (Cons f fs)
  have u: "unlink e (UnlinkCleanup f) f s = (None, s\<lparr>tmp := Some fs\<rparr>)"
    using assms Cons.prems by (simp add: unlink_def)
  have "unlink_all e fs (s\<lparr>tmp := Some fs\<rparr>) = (None, s\<lparr>tmp := Some fs\<rparr>\<lparr>tmp := Some []\<rparr>)"
    by (rule Cons.IH) simp
  with u show ?case by simp
qed

lemma cleanup_on_error_ok:
  assumes "fails e ReaddirCleanup = None" "\<forall>f. fails e (UnlinkCleanup f) = None"
    "fails e RmdirCleanup = None"
  shows "tmp (cleanup_on_error e s) = None"
proof (cases "tmp s")
  case None
  then show ?thesis by (simp add: cleanup_on_error_def)
next
  case (Some fs)
  with assms show ?thesis
    by (simp add: cleanup_on_error_def unlink_all_ok rmdirSync_def)
qed

lemma analyzeVideoSensitivity_on_error:
  assumes "fst (extractFrames (frame_cap v) e 5 s) = Inl m"
  shows "analyzeVideoSensitivity v e s =
           (Safe, cleanup_on_error e (snd (extractFrames (frame_cap v) e 5 (s\<lparr>draws := Suc (draws s)\<rparr>))))"
  using assms
  by (simp add: analyzeVideoSensitivity_def Let_def extractFrames_draws case_prod_beta)

lemma findOne_tenant: "findOne w vid t = Some x \<Longrightarrow> v_tenantId x = t"
  by (simp add: findOne_def split: option.splits if_splits)

lemma findOne_update [simp]:
  "findOne (w\<lparr>videos := (videos w')(vid \<mapsto> y)\<rparr>) vid t = (if v_tenantId y = t then Some y else None)"
  by (simp add: findOne_def)

lemma updateVideoStatus_ok:
  "fails e st = None \<Longrightarrow>
     updateVideoStatus e st vid t f w =
       (None, case findOne w vid t of None \<Rightarrow> w | Some x \<Rightarrow> w\<lparr>videos := (videos w)(vid \<mapsto> f x)\<rparr>)"
  by (simp add: updateVideoStatus_def split: option.splits)

lemma findOne_frame [simp]:
  "findOne (emit io t' ev w) vid t = findOne w vid t"
  "findOne (set_job vid' j w) vid t = findOne w vid t"
  "findOne (w\<lparr>filesys := s\<rparr>) vid t = findOne w vid t"
  "findOne (w\<lparr>job_history := h\<rparr>) vid t = findOne w vid t"
  by (simp_all add: findOne_def)

lemma processVideo_try_db_ok:
  assumes db: "fails e FindVideo = None" "fails e SetProcessing = None" "fails e SetDuration = None"
      "fails e SetProcessed = None"
    and found: "findOne w vid t = Some x"
  shows "fst (processVideo_try v e vid t io w) = None"
    and "videos (snd (processVideo_try v e vid t io w)) vid =
           Some (x\<lparr>v_status := Processed,
                   v_safetyStatus := fst (analyzeVideoSensitivity v e (filesys w)),
                   v_duration := Some (getVideoMetadata e)\<rparr>)"
    and "filesys (snd (processVideo_try v e vid t io w)) =
           snd (analyzeVideoSensitivity v e (filesys w))"
proof -
  have ten: "v_tenantId x = t"
    using found by (rule findOne_tenant)
  show "fst (processVideo_try v e vid t io w) = None"
    using db found ten
    by (simp add: processVideo_try_def Let_def updateVideoStatus_ok case_prod_beta)
  show "videos (snd (processVideo_try v e vid t io w)) vid =
           Some (x\<lparr>v_status := Processed,
                   v_safetyStatus := fst (analyzeVideoSensitivity v e (filesys w)),
                   v_duration := Some (getVideoMetadata e)\<rparr>)"
    using db found ten
    by (simp add: processVideo_try_def Let_def updateVideoStatus_ok case_prod_beta)
  show "filesys (snd (processVideo_try v e vid t io w)) =
           snd (analyzeVideoSensitivity v e (filesys w))"
    using db found ten
    by (simp add: processVideo_try_def Let_def updateVideoStatus_ok case_prod_beta)
qed

text \<open>
  Claim C1, amended. If frame extraction throws during a run,
  \<open>analyzeVideoSensitivity\<close> returns \<open>safe\<close>; when the video exists and the database
  calls of the run succeed, the run ends with the video \<open>processed\<close> and its safety
  status \<open>safe\<close>; and when no clean-up call fails, the temporary frame directory is
  absent when control returns.
\<close>

theorem extraction_failure_defaults_to_safe:
  assumes "fst (extractFrames (frame_cap v) e 5 (filesys w)) = Inl m"
    and "findOne w videoId tenantId = Some x"
    and "fails e FindVideo = None" "fails e SetProcessing = None" "fails e SetDuration = None"
      "fails e SetProcessed = None"
  shows "fst (analyzeVideoSensitivity v e (filesys w)) = Safe \<and>
    (\<exists>x'. videos (processVideo v e videoId tenantId io w) videoId = Some x' \<and>
          v_status x' = Processed \<and> v_safetyStatus x' = Safe) \<and>
    (fails e ReaddirCleanup = None \<and> (\<forall>f. fails e (UnlinkCleanup f) = None) \<and>
     fails e RmdirCleanup = None \<longrightarrow>
       tmp (filesys (processVideo v e videoId tenantId io w)) = None)"
proof -
  let ?w = "w\<lparr>job_history := []\<rparr>"
  have found: "findOne ?w videoId tenantId = Some x"
    using assms(2) by simp
  note ok = processVideo_try_db_ok [OF assms(3-6) found, of v io]
  have a: "analyzeVideoSensitivity v e (filesys w) =
      (Safe, cleanup_on_error e (snd (extractFrames (frame_cap v) e 5
                 ((filesys w)\<lparr>draws := Suc (draws (filesys w))\<rparr>))))"
    using assms(1) by (rule analyzeVideoSensitivity_on_error)
  have p: "processVideo v e videoId tenantId io w = snd (processVideo_try v e videoId tenantId io ?w)"
    using ok(1) by (simp add: processVideo_def case_prod_beta)
  have "fst (analyzeVideoSensitivity v e (filesys w)) = Safe"
    by (simp add: a)
  moreover have "\<exists>x'. videos (processVideo v e videoId tenantId io w) videoId = Some x' \<and>
          v_status x' = Processed \<and> v_safetyStatus x' = Safe"
    using ok(2) by (simp add: p a)
  moreover have "tmp (filesys (processVideo v e videoId tenantId io w)) = None"
    if "fails e ReaddirCleanup = None \<and> (\<forall>f. fails e (UnlinkCleanup f) = None) \<and>
     fails e RmdirCleanup = None"
    using ok(3) that by (simp add: p a cleanup_on_error_ok)
  ultimately show ?thesis
    by blast
qed

text \<open>
  Claim C1 as stated fails: when the probe inside \<open>extractFrames\<close> fails,
  \<open>analyzeVideoSensitivity\<close> catches the error and returns \<open>safe\<close>, so the run goes on
  and the video ends \<open>processed\<close> and \<open>safe\<close>, not \<open>failed\<close> and \<open>unknown\<close>.
\<close>

theorem extraction_failure_counterexample:
  "fst (extractFrames (frame_cap pixel_variant) probe_fails_env 5 (filesys fresh_world))
     = Inl ''Failed to probe video: boom'' \<and>
   videos (processVideo pixel_variant probe_fails_env ''v1'' ''t1'' True fresh_world) ''v1'' =
     Some \<lparr>v_tenantId = ''t1'', v_storagePath = ''t1/a.mp4'', v_status = Processed,
           v_safetyStatus = Safe, v_duration = Some (Num 0)\<rparr> \<and>
   \<not> (\<exists>x. videos (processVideo pixel_variant probe_fails_env ''v1'' ''t1'' True fresh_world) ''v1'' = Some x
          \<and> v_status x = Failed \<and> v_safetyStatus x = Unknown)"
proof -
  have f: "\<And>st. fails probe_fails_env st = None"
    by (simp add: probe_fails_env_def quiet_env_def)
  have x: "fst (extractFrames (frame_cap pixel_variant) probe_fails_env 5 (filesys fresh_world))
     = Inl ''Failed to probe video: boom''"
    by (simp add: extractFrames_def probe_fails_env_def quiet_env_def fresh_world_def)
  have fo: "findOne (fresh_world\<lparr>job_history := []\<rparr>) ''v1'' ''t1'' =
     Some \<lparr>v_tenantId = ''t1'', v_storagePath = ''t1/a.mp4'', v_status = Uploaded,
           v_safetyStatus = Unknown, v_duration = None\<rparr>"
    by (simp add: findOne_def fresh_world_def)
  note ok = processVideo_try_db_ok [OF f f f f fo, of pixel_variant True]
  have m: "getVideoMetadata probe_fails_env = Num 0"
    by (simp add: getVideoMetadata_def duration_or_zero_def probe_fails_env_def quiet_env_def)
  have a: "fst (analyzeVideoSensitivity pixel_variant probe_fails_env (filesys fresh_world)) = Safe"
    using x by (simp add: analyzeVideoSensitivity_verdict)
  have v: "videos (processVideo pixel_variant probe_fails_env ''v1'' ''t1'' True fresh_world) ''v1'' =
     Some \<lparr>v_tenantId = ''t1'', v_storagePath = ''t1/a.mp4'', v_status = Processed,
           v_safetyStatus = Safe, v_duration = Some (Num 0)\<rparr>"
    using ok(1) ok(2) by (simp add: processVideo_def case_prod_beta m a)
  from x v show ?thesis by simp
qed

theorem extraction_failure_defaults_to_safe_witness:
  "fst (extractFrames (frame_cap pixel_variant) probe_fails_env 5 (filesys fresh_world))
     = Inl ''Failed to probe video: boom'' \<and>
   findOne fresh_world ''v1'' ''t1'' =
     Some \<lparr>v_tenantId = ''t1'', v_storagePath = ''t1/a.mp4'', v_status = Uploaded,
           v_safetyStatus = Unknown, v_duration = None\<rparr> \<and>
   fails probe_fails_env FindVideo = None \<and> fails probe_fails_env SetProcessing = None \<and>
   fails probe_fails_env SetDuration = None \<and> fails probe_fails_env SetProcessed = None \<and>
   fails probe_fails_env ReaddirCleanup = None \<and> (\<forall>f. fails probe_fails_env (UnlinkCleanup f) = None) \<and>
   fails probe_fails_env RmdirCleanup = None \<and>
   fst (analyzeVideoSensitivity pixel_variant probe_fails_env (filesys fresh_world)) = Safe \<and>
   (\<exists>x'. videos (processVideo pixel_variant probe_fails_env ''v1'' ''t1'' False fresh_world) ''v1'' = Some x' \<and>
          v_status x' = Processed \<and> v_safetyStatus x' = Safe) \<and>
   tmp (filesys (processVideo pixel_variant probe_fails_env ''v1'' ''t1'' False fresh_world)) = None"
proof -
  have f: "\<And>st. fails probe_fails_env st = None"
    by (simp add: probe_fails_env_def quiet_env_def)
  have x: "fst (extractFrames (frame_cap pixel_variant) probe_fails_env 5 (filesys fresh_world))
     = Inl ''Failed to probe video: boom''"
    by (simp add: extractFrames_def probe_fails_env_def quiet_env_def fresh_world_def)
  have fo: "findOne fresh_world ''v1'' ''t1'' =
     Some \<lparr>v_tenantId = ''t1'', v_storagePath = ''t1/a.mp4'', v_status = Uploaded,
           v_safetyStatus = Unknown, v_duration = None\<rparr>"
    by (simp add: findOne_def fresh_world_def)
  from extraction_failure_defaults_to_safe [OF x fo f f f f, of False] f x fo
  show ?thesis by simp
qed

end
